theory Spec2Isabelle
  imports Main "HOL-Library.Word"
begin

unbundle bit_operations_syntax

section \<open>Go library functions that monitor.go calls\<close>

text \<open>
  Strings are byte lists. The functions of this section are the ones of Go's packages
  \<open>strings\<close> and \<open>path/filepath\<close> (Unix) that share/fsmon/monitor.go calls; each keeps the
  name it has in Go, with the package name in front.
\<close>

definition strings_HasPrefix :: "string \<Rightarrow> string \<Rightarrow> bool" where
  "strings_HasPrefix s p = (length p \<le> length s \<and> take (length p) s = p)"

definition strings_HasSuffix :: "string \<Rightarrow> string \<Rightarrow> bool" where
  "strings_HasSuffix s suf =
     (length suf \<le> length s \<and> drop (length s - length suf) s = suf)"

text \<open>\<open>strings.Index\<close>: the index of the first occurrence of \<open>sub\<close> in \<open>s\<close>, or -1.\<close>

fun strings_Index :: "string \<Rightarrow> string \<Rightarrow> int" where
  "strings_Index [] sub = (if sub = [] then 0 else -1)"
| "strings_Index (c # cs) sub =
     (if strings_HasPrefix (c # cs) sub then 0
      else (let r = strings_Index cs sub in if r < 0 then -1 else r + 1))"

text \<open>The path elements between the slashes, and back.\<close>

fun splitSlash :: "string \<Rightarrow> string list" where
  "splitSlash [] = [[]]"
| "splitSlash (c # cs) =
     (if c = CHR ''/'' then [] # splitSlash cs
      else (case splitSlash cs of [] \<Rightarrow> [[c]] | e # es \<Rightarrow> (c # e) # es))"

fun joinSlash :: "string list \<Rightarrow> string" where
  "joinSlash [] = []"
| "joinSlash [e] = e"
| "joinSlash (e # f # es) = e @ ''/'' @ joinSlash (f # es)"

text \<open>
  \<open>filepath.Clean\<close> works element by element: empty elements and \<open>.\<close> are dropped, \<open>..\<close>
  removes the element before it (at the root it is dropped, in a relative path that has
  nothing left to remove it is kept). The third argument is the output so far, reversed.
\<close>

fun cleanElems :: "bool \<Rightarrow> string list \<Rightarrow> string list \<Rightarrow> string list" where
  "cleanElems rooted [] out = rev out"
| "cleanElems rooted (e # es) out =
     (if e = [] \<or> e = ''.'' then cleanElems rooted es out
      else if e = ''..'' then
        (case out of
           [] \<Rightarrow> if rooted then cleanElems rooted es [] else cleanElems rooted es [''..'']
         | p # ps \<Rightarrow>
             if p = ''..'' then cleanElems rooted es (''..'' # out)
             else cleanElems rooted es ps)
      else cleanElems rooted es (e # out))"

definition filepath_Clean :: "string \<Rightarrow> string" where
  "filepath_Clean p =
     (if p = [] then ''.''
      else
        (let rooted = (hd p = CHR ''/'');
             s = joinSlash (cleanElems rooted (splitSlash p) [])
         in if rooted then CHR ''/'' # s else if s = [] then ''.'' else s))"

text \<open>\<open>filepath.Dir\<close>: everything up to the last slash, cleaned.\<close>

definition filepath_Dir :: "string \<Rightarrow> string" where
  "filepath_Dir p = filepath_Clean (rev (dropWhile (\<lambda>c. c \<noteq> CHR ''/'') (rev p)))"

text \<open>\<open>filepath.Base\<close>: the last element, trailing slashes removed.\<close>

definition filepath_Base :: "string \<Rightarrow> string" where
  "filepath_Base p =
     (if p = [] then ''.''
      else
        (let q = rev (dropWhile (\<lambda>c. c = CHR ''/'') (rev p));
             b = rev (takeWhile (\<lambda>c. c \<noteq> CHR ''/'') (rev q))
         in if b = [] then ''/'' else b))"

text \<open>\<open>filepath.Join\<close>: the elements from the first non-empty one on, joined and cleaned.\<close>

fun filepath_Join :: "string list \<Rightarrow> string" where
  "filepath_Join [] = []"
| "filepath_Join (e # es) =
     (if e \<noteq> [] then filepath_Clean (joinSlash (e # es)) else filepath_Join es)"

subsection \<open>A fragment of Go's regular expressions\<close>

text \<open>
  monitor.go compiles its patterns with \<open>regexp.Compile\<close>. The functions of the monitor
  take the compiler as a parameter (a pattern gives a matcher, or \<open>None\<close> when it does not
  compile), so what is proved about them holds for every regular expression engine. To
  run the monitor on concrete paths, \<open>rxCompile\<close> implements the fragment of Go's syntax
  that the built-in filters use: literal bytes, \<open>.\<close> (any byte but a newline), a backslash
  before a punctuation byte, a star after one of these, \<open>^\<close> in front and \<open>$\<close> at the
  end. Outside this fragment \<open>rxCompile\<close> gives \<open>None\<close>.
\<close>

datatype rxAtom = RxLit char | RxAny

datatype rxTok = TAtom rxAtom | TStar | TDollar

definition rxMeta :: "char \<Rightarrow> bool" where
  "rxMeta c = (c \<in> set ''+?()[]{}|^'' \<or> c = CHR 0x5C)"

definition rxPunct :: "char \<Rightarrow> bool" where
  "rxPunct c = (c \<in> set ''.*+?()[]{}|^$/-_'' \<or> c = CHR 0x5C)"

fun rxLex :: "string \<Rightarrow> rxTok list option" where
  "rxLex [] = Some []"
| "rxLex (c # cs) =
     (if c = CHR 0x5C then
        (case cs of
           [] \<Rightarrow> None
         | d # ds \<Rightarrow> if rxPunct d then map_option ((#) (TAtom (RxLit d))) (rxLex ds) else None)
      else if c = CHR ''.'' then map_option ((#) (TAtom RxAny)) (rxLex cs)
      else if c = CHR ''*'' then map_option ((#) TStar) (rxLex cs)
      else if c = CHR ''$'' then map_option ((#) TDollar) (rxLex cs)
      else if rxMeta c then None
      else map_option ((#) (TAtom (RxLit c))) (rxLex cs))"

text \<open>An item is an atom and whether a star follows it; the flag says if \<open>$\<close> ends the pattern.\<close>

fun rxItems :: "rxTok list \<Rightarrow> ((rxAtom \<times> bool) list \<times> bool) option" where
  "rxItems [] = Some ([], False)"
| "rxItems [TDollar] = Some ([], True)"
| "rxItems (TAtom a # TStar # ts) =
     map_option (\<lambda>(its, e). ((a, True) # its, e)) (rxItems ts)"
| "rxItems (TAtom a # ts) =
     map_option (\<lambda>(its, e). ((a, False) # its, e)) (rxItems ts)"
| "rxItems (TStar # ts) = None"
| "rxItems (TDollar # ts) = None"

fun rxAtomOk :: "rxAtom \<Rightarrow> char \<Rightarrow> bool" where
  "rxAtomOk (RxLit d) c = (c = d)"
| "rxAtomOk RxAny c = (c \<noteq> CHR 0x0A)"

text \<open>The items match a prefix of the string (all of it when the pattern ends in \<open>$\<close>).\<close>

fun rxMatch :: "bool \<Rightarrow> (rxAtom \<times> bool) list \<Rightarrow> string \<Rightarrow> bool" where
  "rxMatch endA [] s = (\<not> endA \<or> s = [])"
| "rxMatch endA ((a, False) # r) [] = False"
| "rxMatch endA ((a, False) # r) (c # cs) = (rxAtomOk a c \<and> rxMatch endA r cs)"
| "rxMatch endA ((a, True) # r) [] = rxMatch endA r []"
| "rxMatch endA ((a, True) # r) (c # cs) =
     (rxMatch endA r (c # cs) \<or> (rxAtomOk a c \<and> rxMatch endA ((a, True) # r) cs))"

text \<open>\<open>MatchString\<close> looks for a match starting anywhere, unless the pattern starts with \<open>^\<close>.\<close>

fun rxSearch :: "bool \<Rightarrow> (rxAtom \<times> bool) list \<Rightarrow> string \<Rightarrow> bool" where
  "rxSearch endA its [] = rxMatch endA its []"
| "rxSearch endA its (c # cs) = (rxMatch endA its (c # cs) \<or> rxSearch endA its cs)"

definition rxCompile :: "string \<Rightarrow> (string \<Rightarrow> bool) option" where
  "rxCompile pat =
     (let startA = (pat \<noteq> [] \<and> hd pat = CHR ''^'');
          body = (if startA then tl pat else pat)
      in case rxLex body of
           None \<Rightarrow> None
         | Some ts \<Rightarrow>
             (case rxItems ts of
                None \<Rightarrow> None
              | Some (its, endA) \<Rightarrow>
                  Some (\<lambda>s. if startA then rxMatch endA its s else rxSearch endA its s)))"

section \<open>Constants\<close>

text \<open>The inotify event bits of package \<open>syscall\<close> (Linux) that the monitor tests.\<close>

definition IN_ACCESS :: "32 word" where "IN_ACCESS = 0x1"
definition IN_MODIFY :: "32 word" where "IN_MODIFY = 0x2"
definition IN_ATTRIB :: "32 word" where "IN_ATTRIB = 0x4"
definition IN_CLOSE_WRITE :: "32 word" where "IN_CLOSE_WRITE = 0x8"
definition IN_MOVED_FROM :: "32 word" where "IN_MOVED_FROM = 0x40"
definition IN_MOVED_TO :: "32 word" where "IN_MOVED_TO = 0x80"
definition IN_MOVE :: "32 word" where "IN_MOVE = IN_MOVED_FROM OR IN_MOVED_TO"
definition IN_CREATE :: "32 word" where "IN_CREATE = 0x100"
definition IN_DELETE :: "32 word" where "IN_DELETE = 0x200"
definition IN_DELETE_SELF :: "32 word" where "IN_DELETE_SELF = 0x400"
definition IN_MOVE_SELF :: "32 word" where "IN_MOVE_SELF = 0x800"
definition IN_UNMOUNT :: "32 word" where "IN_UNMOUNT = 0x2000"
definition IN_IGNORED :: "32 word" where "IN_IGNORED = 0x8000"
definition IN_ISDIR :: "32 word" where "IN_ISDIR = 0x40000000"

definition inodeMovedMask :: "32 word" where
  "inodeMovedMask = IN_MOVE OR IN_MOVE_SELF OR IN_MOVED_TO"

text \<open>The mode bits of \<open>os.FileMode\<close> that the monitor reads.\<close>

definition ModeDir :: "32 word" where "ModeDir = push_bit (31::nat) 1"
definition ModeSymlink :: "32 word" where "ModeSymlink = push_bit (27::nat) 1"

definition IsDir :: "32 word \<Rightarrow> bool" where
  "IsDir m = (m AND ModeDir \<noteq> 0)"

text \<open>The event kinds: \<open>1 << iota\<close>, in the order of the source.\<close>

definition fileEventAttr :: "32 word" where "fileEventAttr = push_bit (0::nat) 1"
definition fileEventDirAttr :: "32 word" where "fileEventDirAttr = push_bit (1::nat) 1"
definition fileEventCreate :: "32 word" where "fileEventCreate = push_bit (2::nat) 1"
definition fileEventModified :: "32 word" where "fileEventModified = push_bit (3::nat) 1"
definition fileEventRemoved :: "32 word" where "fileEventRemoved = push_bit (4::nat) 1"
definition fileEventSymCreate :: "32 word" where "fileEventSymCreate = push_bit (5::nat) 1"
definition fileEventSymModified :: "32 word" where "fileEventSymModified = push_bit (6::nat) 1"
definition fileEventDirSymCreate :: "32 word" where "fileEventDirSymCreate = push_bit (7::nat) 1"
definition fileEventDirSymModified :: "32 word" where "fileEventDirSymModified = push_bit (8::nat) 1"
definition fileEventReplaced :: "32 word" where "fileEventReplaced = push_bit (9::nat) 1"
definition fileEventDirCreate :: "32 word" where "fileEventDirCreate = push_bit (10::nat) 1"
definition fileEventDirRemoved :: "32 word" where "fileEventDirRemoved = push_bit (11::nat) 1"
definition fileEventAccessed :: "32 word" where "fileEventAccessed = push_bit (12::nat) 1"
definition fileEventDenied :: "32 word" where "fileEventDenied = push_bit (13::nat) 1"
definition fileEventMovedFrom :: "32 word" where "fileEventMovedFrom = push_bit (14::nat) 1"
definition fileEventMovedTo :: "32 word" where "fileEventMovedTo = push_bit (15::nat) 1"
definition fileEventDirMovedFrom :: "32 word" where "fileEventDirMovedFrom = push_bit (16::nat) 1"
definition fileEventDirMovedTo :: "32 word" where "fileEventDirMovedTo = push_bit (17::nat) 1"

definition fileEventMsg :: "32 word \<rightharpoonup> string" where
  "fileEventMsg = map_of
     [(fileEventAttr, ''File attribute is changed.''),
      (fileEventDirAttr, ''Directory attribute is changed.''),
      (fileEventModified, ''File was modified.''),
      (fileEventReplaced, ''File was replaced.''),
      (fileEventCreate, ''File created in watched directory.''),
      (fileEventRemoved, ''File deleted from watched directory.''),
      (fileEventSymCreate, ''File symlink was created.''),
      (fileEventSymModified, ''File symlink was modified.''),
      (fileEventDirSymCreate, ''Directory symlink was created.''),
      (fileEventDirSymModified, ''Directory symlink was modified.''),
      (fileEventDirCreate, ''Directory was created.''),
      (fileEventDirRemoved, ''Directory was deleted.''),
      (fileEventAccessed, ''File was accessed.''),
      (fileEventDenied, ''File access was denied.''),
      (fileEventMovedFrom, ''File was moved from.''),
      (fileEventMovedTo, ''File was moved to.''),
      (fileEventDirMovedFrom, ''Directory was moved from.''),
      (fileEventDirMovedTo, ''Directory was moved to.'')]"

text \<open>
  Modelled from the spec: the policy modes and actions are string constants of package
  \<open>share\<close>, which is not among the sources. The spec names three modes, \<open>Learn\<close>,
  \<open>Evaluate\<close> and \<open>Enforce\<close>, and two actions, \<open>Violate\<close> and \<open>Deny\<close>; the constants
  below carry these names. The monitor only compares them with each other and with the
  empty string.
\<close>

definition PolicyModeLearn :: string where "PolicyModeLearn = ''Learn''"
definition PolicyModeEvaluate :: string where "PolicyModeEvaluate = ''Evaluate''"
definition PolicyModeEnforce :: string where "PolicyModeEnforce = ''Enforce''"
definition PolicyActionViolate :: string where "PolicyActionViolate = ''Violate''"
definition PolicyActionDeny :: string where "PolicyActionDeny = ''Deny''"

section \<open>Data model\<close>

text \<open>
  A Go slice that may be \<open>nil\<close> is a list option: \<open>None\<close> is the nil slice, which
  \<open>sendMsg\<close> tells from an empty one. A pointer to a \<open>ProcInfo\<close> is a \<open>ProcInfo option\<close>,
  \<open>None\<close> being \<open>nil\<close>; equality of two such values is \<open>reflect.DeepEqual\<close> of the pointers.
\<close>

definition sliceElems :: "'a list option \<Rightarrow> 'a list" where
  "sliceElems s = (case s of None \<Rightarrow> [] | Some xs \<Rightarrow> xs)"

definition sliceAppend :: "'a list option \<Rightarrow> 'a \<Rightarrow> 'a list option" where
  "sliceAppend s x = Some (sliceElems s @ [x])"

text \<open>
  The filter, profile and access-rule structs of package \<open>share\<close>, with the fields that
  monitor.go reads.
\<close>

record CLUSFileMonitorFilter =
  Behavior :: string
  Path :: string
  Regex :: string
  Recursive :: bool
  CustomerAdd :: bool
  DerivedGroup :: string

record CLUSFileMonitorProfile =
  Group :: string
  Mode :: string
  Filters :: "CLUSFileMonitorFilter list"
  FiltersCRD :: "CLUSFileMonitorFilter list"

record CLUSFileAccessFilterRule =
  Apps :: "string list"
  rule_CustomerAdd :: bool

record CLUSFileAccessRule =
  rule_Filters :: "string \<rightharpoonup> CLUSFileAccessFilterRule"

record FsmonConfig =
  Profile :: CLUSFileMonitorProfile
  Rule :: "CLUSFileAccessRule option"

record ProcInfo =
  RootPid :: int
  Name :: string
  proc_Path :: string
  Cmds :: "string list option"
  Pid :: int
  EUid :: int
  EUser :: string
  PPid :: int
  PName :: string
  PPath :: string
  Deny :: bool
  InProfile :: bool

text \<open>
  \<open>filterRegex\<close> (declared in another file of the package) and \<open>osutil.FileInfoExt\<close>, with
  the fields that monitor.go reads and writes. A \<open>FileInfoExt\<close> is shared by pointer
  between the drivers, the pending events and the classifier, which writes to it; the
  watcher therefore carries a store of these objects, and a pointer is an address in it.
\<close>

record filterRegex =
  fr_path :: string
  fr_recursive :: bool

record FileInfoExt =
  ContainerId :: string
  finfo_Path :: string
  FileMode :: "32 word"
  Link :: string
  Hash :: "8 word list"
  Filter :: filterRegex
  Protect :: bool
  UserAdded :: bool
  Children :: "nat list"

record fileMod =
  mask :: "32 word"
  delay :: int
  finfo :: nat
  pInfo :: "ProcInfo option list option"

text \<open>The rule sets are \<open>utils.Set\<close> values holding process paths; times are in nanoseconds.\<close>

record groupInfo =
  bNeuvector :: bool
  profile :: CLUSFileMonitorProfile
  mode :: string
  applyRules :: "string \<rightharpoonup> string set"
  learnRules :: "string \<rightharpoonup> string set"
  startAt :: int

record MonitorMessage =
  ID :: string
  msg_Path :: string
  Package :: bool
  ProcName :: string
  ProcPath :: string
  ProcCmds :: "string list option"
  ProcPid :: int
  ProcEUid :: int
  ProcEUser :: string
  ProcPPid :: int
  ProcPName :: string
  ProcPPath :: string
  msg_Group :: string
  Msg :: string
  Count :: int
  StartAt :: int
  Action :: string

record FaMonProbeData =
  NRoots :: int
  NMntRoots :: int
  NDirMarks :: int
  NRules :: int
  fa_NPaths :: int
  fa_NDirs :: int

record IMonProbeData =
  NWds :: int
  ino_NPaths :: int
  ino_NDirs :: int

record FmonProbeData =
  NFileEvents :: int
  NGroups :: int
  Fan :: FaMonProbeData
  Ino :: IMonProbeData

typedecl CLUSFileMonitorFile

text \<open>
  The watcher. \<open>'fa\<close> and \<open>'ino\<close> are the states of the fanotify and the inotify driver,
  whose code is not in monitor.go; \<open>finfos\<close> is the store of \<open>FileInfoExt\<close> objects.
\<close>

record ('fa, 'ino) FileWatch =
  bEnable :: bool
  aufs :: bool
  bNVProtect :: bool
  fanotifier :: 'fa
  inotifier :: 'ino
  fileEvents :: "string \<rightharpoonup> fileMod"
  groups :: "int \<rightharpoonup> groupInfo"
  finfos :: "nat \<Rightarrow> FileInfoExt"

text \<open>
  The operations of the two drivers that monitor.go calls, as parameters: each takes the
  driver's state and returns the new one. A file's \<open>params\<close> is the address of its
  \<open>FileInfoExt\<close>; the callback argument is always \<open>cbNotify\<close> and is left out.
\<close>

record ('fa, 'ino) drivers =
  fa_AddMonitorFile :: "string \<Rightarrow> filterRegex \<Rightarrow> bool \<Rightarrow> bool \<Rightarrow> nat \<Rightarrow> 'fa \<Rightarrow> 'fa"
  fa_AddMonitorDirFile ::
    "string \<Rightarrow> filterRegex \<Rightarrow> bool \<Rightarrow> bool \<Rightarrow> (string \<rightharpoonup> nat) \<Rightarrow> nat \<Rightarrow> 'fa \<Rightarrow> 'fa"
  fa_RemoveMonitorFile :: "string \<Rightarrow> 'fa \<Rightarrow> 'fa"
  fa_SetMode :: "int \<Rightarrow> bool \<Rightarrow> bool \<Rightarrow> bool \<Rightarrow> bool \<Rightarrow> 'fa \<Rightarrow> 'fa"
  fa_StartMonitor :: "int \<Rightarrow> 'fa \<Rightarrow> 'fa"
  fa_UpdateAccessRule :: "int \<Rightarrow> CLUSFileAccessRule \<Rightarrow> 'fa \<Rightarrow> 'fa"
  fa_ContainerCleanup :: "int \<Rightarrow> 'fa \<Rightarrow> 'fa"
  fa_GetWatchFileList :: "int \<Rightarrow> 'fa \<Rightarrow> CLUSFileMonitorFile list option"
  fa_GetWatches :: "'fa \<Rightarrow> CLUSFileMonitorFile list option"
  fa_GetProbeData :: "'fa \<Rightarrow> FaMonProbeData"
  ino_AddMonitorFile :: "string \<Rightarrow> nat \<Rightarrow> 'ino \<Rightarrow> 'ino"
  ino_AddMonitorDirFile :: "string \<Rightarrow> nat \<Rightarrow> 'ino \<Rightarrow> 'ino"
  ino_RemoveMonitorFile :: "string \<Rightarrow> 'ino \<Rightarrow> 'ino"
  ino_ContainerCleanup :: "int \<Rightarrow> 'ino \<Rightarrow> 'ino"
  ino_GetProbeData :: "'ino \<Rightarrow> IMonProbeData"

text \<open>
  What the monitor asks of its surroundings at one moment: the operating system
  (\<open>os.Lstat\<close>, \<open>os.Stat\<close> giving the mode of a path or nothing, \<open>os.Readlink\<close>, the
  clock), the helpers of packages \<open>osutil\<close> and \<open>global\<close> that are not among the sources,
  the regular expression compiler, the walker behind \<open>getCoreFile\<close>, and the
  \<open>EstimateRuleSrc\<close> callback. \<open>GetFileInfoExtFromPath\<close> and \<open>getCoreFile\<close> allocate
  \<open>FileInfoExt\<close> objects: they give each new object with its address.
\<close>

record env =
  IsPidValid :: "int \<Rightarrow> bool"
  ParseContainerFilePath :: "string \<Rightarrow> int \<times> string"
  Lstat :: "string \<Rightarrow> 32 word option"
  Stat :: "string \<Rightarrow> 32 word option"
  Readlink :: "string \<Rightarrow> string option"
  GetFileHash :: "string \<Rightarrow> 8 word list option"
  HashZero :: "8 word list \<Rightarrow> bool"
  GetFileInfoExtFromPath ::
    "int \<Rightarrow> string \<Rightarrow> filterRegex \<Rightarrow> bool \<Rightarrow> bool \<Rightarrow> (nat \<times> FileInfoExt) list option"
  IsPackageLib :: "string \<Rightarrow> bool"
  regexp_Compile :: "string \<Rightarrow> (string \<Rightarrow> bool) option"
  getCoreFile ::
    "string \<Rightarrow> int \<Rightarrow> CLUSFileMonitorProfile \<Rightarrow>
       (string \<times> nat) list \<times> nat list \<times> (nat \<times> FileInfoExt) list"
  estRuleSrc :: "string \<Rightarrow> string \<Rightarrow> bool \<Rightarrow> string"
  now :: int

section \<open>The monitor\<close>

subsection \<open>Filters and learning\<close>

definition filterIndexKey :: "CLUSFileMonitorFilter \<Rightarrow> string" where
  "filterIndexKey flt = Path flt @ ''/'' @ Regex flt"

text \<open>The first argument is \<open>regexp.Compile\<close>; a pattern that does not compile matches nothing.\<close>

definition filterPathMatch ::
  "(string \<Rightarrow> (string \<Rightarrow> bool) option) \<Rightarrow> string \<Rightarrow> CLUSFileMonitorFilter \<Rightarrow> bool" where
  "filterPathMatch compile p flt =
     (if Regex flt = [] then Path flt = p
      else
        (let fstr = filepath_Dir p @ ''/'' @ Regex flt
         in case compile (''^'' @ fstr @ ''$'') of
              Some regx \<Rightarrow> regx p
            | None \<Rightarrow> False))"

text \<open>
  One round of the loop of \<open>addLearnedRules\<close> over the process infos: a \<open>nil\<close> entry and an
  empty path are skipped, and a path is added when neither set has it.
\<close>

definition learnPath :: "string set \<Rightarrow> ProcInfo option \<Rightarrow> string set \<Rightarrow> string set" where
  "learnPath applyR pf learnR =
     (case pf of
        None \<Rightarrow> learnR
      | Some p \<Rightarrow>
          if proc_Path p \<noteq> [] then
            (if proc_Path p \<notin> applyR \<and> proc_Path p \<notin> learnR then insert (proc_Path p) learnR
             else learnR)
          else learnR)"

definition addLearnedRules ::
  "groupInfo \<Rightarrow> CLUSFileMonitorFilter \<Rightarrow> ProcInfo option list \<Rightarrow> groupInfo" where
  "addLearnedRules grp flt ps =
     (let index = filterIndexKey flt
      in case applyRules grp index of
           Some applyR \<Rightarrow>
             (let learnR0 = (case learnRules grp index of None \<Rightarrow> {} | Some l \<Rightarrow> l);
                  learnR = fold (learnPath applyR) ps learnR0
              in if learnR \<noteq> {} then grp\<lparr>learnRules := (learnRules grp)(index \<mapsto> learnR)\<rparr>
                 else grp)
         | None \<Rightarrow> grp)"

text \<open>The two loops of \<open>learnFromEvents\<close> over the filters of the profile.\<close>

definition learnFilters ::
  "(string \<Rightarrow> (string \<Rightarrow> bool) option) \<Rightarrow> string \<Rightarrow> ProcInfo option list \<Rightarrow>
     CLUSFileMonitorFilter list \<Rightarrow> groupInfo \<Rightarrow> groupInfo" where
  "learnFilters compile p ps flts grp =
     fold (\<lambda>flt g. if CustomerAdd flt \<and> filterPathMatch compile p flt
                    then addLearnedRules g flt ps else g) flts grp"

definition isRunTimeAddedFile :: "string \<Rightarrow> bool" where
  "isRunTimeAddedFile p =
     (strings_HasSuffix p ''/root/etc/hosts'' \<or>
      strings_HasSuffix p ''/root/etc/hostname'' \<or>
      strings_HasSuffix p ''/root/etc/resolv.conf'')"

text \<open>
  The test of \<open>getDirFileList\<close> on a file of the walker's result (the second loop, up to
  the last \<open>continue\<close>): true when the file is kept for the filter. The base is the
  filter's path with \<open>strings.Replace(path, "\\.", ".", -1)\<close> applied; a file other than
  the base must lie under it, and a pattern that does not compile skips the regex test.
\<close>

fun unescapeDots :: "string \<Rightarrow> string" where
  "unescapeDots (c # d # cs) =
     (if c = CHR 0x5C \<and> d = CHR ''.'' then CHR ''.'' # unescapeDots cs
      else c # unescapeDots (d # cs))"
| "unescapeDots cs = cs"

definition getDirFileList_keeps ::
  "(string \<Rightarrow> (string \<Rightarrow> bool) option) \<Rightarrow> CLUSFileMonitorFilter \<Rightarrow> string \<Rightarrow> bool" where
  "getDirFileList_keeps compile flt file =
     (let base = unescapeDots (Path flt); baseD = base @ ''/''
      in if file \<noteq> base then
           strings_HasPrefix file baseD \<and>
           (case compile (''^'' @ filepath_Dir file @ ''/'' @ Regex flt @ ''$'') of
              Some rgx \<Rightarrow> rgx file
            | None \<Rightarrow> True) \<and>
           (Recursive flt \<or> filepath_Dir file = base)
         else True)"

subsection \<open>Reports\<close>

text \<open>
  \<open>sendMsg\<close> hands its messages to the \<open>SendReport\<close> callback; the model returns them, in
  the order sent. The message of an event before a process is filled in:
\<close>

definition baseMsg :: "env \<Rightarrow> string \<Rightarrow> string \<Rightarrow> 32 word \<Rightarrow> string \<Rightarrow> MonitorMessage" where
  "baseMsg e cid p event eventMsg =
     \<lparr>ID = cid, msg_Path = p, Package = IsPackageLib e p,
      ProcName = [], ProcPath = [], ProcCmds = None, ProcPid = 0, ProcEUid = 0,
      ProcEUser = [], ProcPPid = 0, ProcPName = [], ProcPPath = [],
      msg_Group = estRuleSrc e cid p (event = fileEventDenied),
      Msg = eventMsg, Count = 0, StartAt = 0, Action = PolicyActionViolate\<rparr>"

definition procMsg :: "MonitorMessage \<Rightarrow> ProcInfo option \<Rightarrow> MonitorMessage" where
  "procMsg m pf =
     (case pf of
        None \<Rightarrow> m
      | Some p \<Rightarrow>
          (let m1 = m\<lparr>ProcName := Name p, ProcPath := proc_Path p, ProcCmds := Cmds p,
                      ProcPid := Pid p, ProcEUid := EUid p, ProcEUser := EUser p,
                      ProcPPid := PPid p, ProcPName := PName p, ProcPPath := PPath p\<rparr>
           in if Deny p
              then m1\<lparr>Action := PolicyActionDeny,
                      Msg := (case fileEventMsg fileEventDenied of Some t \<Rightarrow> t | None \<Rightarrow> [])\<rparr>
              else m1))"

text \<open>
  The loop of \<open>sendMsg\<close>: the second argument is the entry before the current one
  (\<open>None\<close> at index 0); an entry equal to the one before it sends nothing.
\<close>

fun sendMsgProcs ::
  "MonitorMessage \<Rightarrow> ProcInfo option option \<Rightarrow> ProcInfo option list \<Rightarrow> MonitorMessage list" where
  "sendMsgProcs m prev [] = []"
| "sendMsgProcs m prev (pf # rest) =
     (if prev = None \<or> prev \<noteq> Some pf then [procMsg m pf] else [])
       @ sendMsgProcs m (Some pf) rest"

definition sendMsg ::
  "env \<Rightarrow> string \<Rightarrow> string \<Rightarrow> 32 word \<Rightarrow> ProcInfo option list option \<Rightarrow> MonitorMessage list" where
  "sendMsg e cid p event ps =
     (case fileEventMsg event of
        None \<Rightarrow> []
      | Some eventMsg \<Rightarrow>
          (case ps of
             None \<Rightarrow> [baseMsg e cid p event eventMsg]
           | Some pl \<Rightarrow> sendMsgProcs (baseMsg e cid p event eventMsg) None pl))"

text \<open>The path a report carries: the link target when there is one, cut after \<open>/root\<close>.\<close>

definition reportPath :: "FileInfoExt \<Rightarrow> string \<Rightarrow> string" where
  "reportPath fi p =
     (if Link fi \<noteq> [] then
        (let l = Link fi; index = strings_Index l ''/root/''
         in if index > 0 then drop (nat (index + 5)) l else l)
      else p)"

text \<open>
  \<open>learnFromEvents\<close> returns the watcher and the messages sent. \<open>time.Since\<close> is the
  difference to the clock of the environment, in nanoseconds.
\<close>

definition learnFromEvents ::
  "env \<Rightarrow> ('fa, 'ino) FileWatch \<Rightarrow> int \<Rightarrow> fileMod \<Rightarrow> string \<Rightarrow> 32 word \<Rightarrow>
     ('fa, 'ino) FileWatch \<times> MonitorMessage list" where
  "learnFromEvents e w rootPid fmod p event =
     (case groups w rootPid of
        None \<Rightarrow> (w, [])
      | Some grp \<Rightarrow>
          (let md = mode grp;
               grp' =
                 (if md = PolicyModeLearn \<and> length (sliceElems (pInfo fmod)) > 0 then
                    learnFilters (regexp_Compile e) p (sliceElems (pInfo fmod))
                      (FiltersCRD (profile grp))
                      (learnFilters (regexp_Compile e) p (sliceElems (pInfo fmod))
                        (Filters (profile grp)) grp)
                  else grp);
               w' = w\<lparr>groups := (groups w)(rootPid \<mapsto> grp')\<rparr>
           in if isRunTimeAddedFile (filepath_Join [''/root'', p]) \<and>
                 (event = fileEventAccessed \<or> now e - startAt grp < 60 * 1000000000)
              then (w', [])
              else if event \<noteq> fileEventAccessed \<or>
                      (md = PolicyModeEnforce \<or> md = PolicyModeEvaluate)
              then (w', sendMsg e (ContainerId (finfos w (finfo fmod)))
                          (reportPath (finfos w (finfo fmod)) p) event (pInfo fmod))
              else (w', [])))"

subsection \<open>The learning tick and rule updates\<close>

text \<open>
  \<open>reportLearningRules\<close> empties the learned rules of every group that has some and
  passes them to the \<open>SendAccessRule\<close> callback as a list in the order of Go's map
  iteration; the model returns them as the set of (group, filter key, process path).
\<close>

definition reportLearningRules ::
  "('fa, 'ino) FileWatch \<Rightarrow> ('fa, 'ino) FileWatch \<times> (string \<times> string \<times> string) set" where
  "reportLearningRules w =
     (w\<lparr>groups := (\<lambda>pid. case groups w pid of
                             None \<Rightarrow> None
                           | Some grp \<Rightarrow>
                               if dom (learnRules grp) \<noteq> {}
                               then Some (grp\<lparr>learnRules := Map.empty\<rparr>)
                               else Some grp)\<rparr>,
      {(Group (profile grp), flt, prf) | pid grp flt rl prf.
         groups w pid = Some grp \<and> learnRules grp flt = Some rl \<and> prf \<in> rl})"

definition UpdateAccessRules ::
  "('fa, 'ino) drivers \<Rightarrow> ('fa, 'ino) FileWatch \<Rightarrow> string \<Rightarrow> int \<Rightarrow> CLUSFileAccessRule \<Rightarrow>
     ('fa, 'ino) FileWatch" where
  "UpdateAccessRules drv w name rootPid conf =
     (if \<not> bEnable w then w
      else
        (case groups w rootPid of
           None \<Rightarrow> w
         | Some grp \<Rightarrow>
             w\<lparr>groups := (groups w)(rootPid \<mapsto>
                  grp\<lparr>applyRules :=
                        (\<lambda>idx. case rule_Filters conf idx of
                                  None \<Rightarrow> None
                                | Some rl \<Rightarrow>
                                    if rule_CustomerAdd rl then Some (set (Apps rl))
                                    else None)\<rparr>),
               fanotifier := fa_UpdateAccessRule drv rootPid conf (fanotifier w)\<rparr>))"

subsection \<open>Arming and releasing watches\<close>

definition addFile ::
  "('fa, 'ino) drivers \<Rightarrow> bool \<Rightarrow> nat \<Rightarrow> ('fa, 'ino) FileWatch \<Rightarrow> ('fa, 'ino) FileWatch" where
  "addFile drv bIncInotify a w =
     (if \<not> bEnable w then w
      else
        (let fi = finfos w a;
             fa = fa_AddMonitorFile drv (finfo_Path fi) (Filter fi) (Protect fi) (UserAdded fi) a
                    (fanotifier w);
             ino = (if bIncInotify \<and> \<not> strings_HasSuffix (fr_path (Filter fi)) ''/.*''
                    then ino_AddMonitorFile drv (finfo_Path fi) a (inotifier w)
                    else inotifier w)
         in w\<lparr>fanotifier := fa, inotifier := ino\<rparr>))"

definition removeFile ::
  "('fa, 'ino) drivers \<Rightarrow> string \<Rightarrow> ('fa, 'ino) FileWatch \<Rightarrow> ('fa, 'ino) FileWatch" where
  "removeFile drv fullpath w =
     w\<lparr>fanotifier := fa_RemoveMonitorFile drv fullpath (fanotifier w),
       inotifier := ino_RemoveMonitorFile drv fullpath (inotifier w)\<rparr>"

definition addDir ::
  "('fa, 'ino) drivers \<Rightarrow> bool \<Rightarrow> nat \<Rightarrow> (string \<rightharpoonup> nat) \<Rightarrow> ('fa, 'ino) FileWatch \<Rightarrow>
     ('fa, 'ino) FileWatch" where
  "addDir drv bIncInotify a files w =
     (if \<not> bEnable w then w
      else
        (let fi = finfos w a;
             fa = fa_AddMonitorDirFile drv (finfo_Path fi) (Filter fi) (Protect fi)
                    (UserAdded fi) files a (fanotifier w);
             ino = (if bIncInotify then ino_AddMonitorDirFile drv (finfo_Path fi) a (inotifier w)
                    else inotifier w)
         in w\<lparr>fanotifier := fa, inotifier := ino\<rparr>))"

subsection \<open>The aggregator\<close>

text \<open>
  \<open>cbNotify\<close> is the callback the drivers call with a path, the event bits, the address
  of the \<open>FileInfoExt\<close> of the watch and the process (or \<open>nil\<close>). The entries of a
  \<open>pInfo\<close> slice are never \<open>nil\<close>, since only this function appends to it.
\<close>

definition cbNotify ::
  "('fa, 'ino) drivers \<Rightarrow> ('fa, 'ino) FileWatch \<Rightarrow> string \<Rightarrow> 32 word \<Rightarrow> nat \<Rightarrow>
     ProcInfo option \<Rightarrow> ('fa, 'ino) FileWatch" where
  "cbNotify drv w filePath msk params pf =
     (if (msk AND IN_IGNORED) \<noteq> 0 \<or> (msk AND IN_UNMOUNT) \<noteq> 0 then removeFile drv filePath w
      else
        (case fileEvents w filePath of
           Some fm \<Rightarrow>
             (let fm1 = fm\<lparr>mask := mask fm OR msk, delay := 0\<rparr>;
                  fm2 =
                    (case pf of
                       None \<Rightarrow> fm1
                     | Some p \<Rightarrow>
                         if list_ex (\<lambda>q. case q of Some q' \<Rightarrow> Pid q' = Pid p | None \<Rightarrow> False)
                              (sliceElems (pInfo fm1))
                         then fm1
                         else fm1\<lparr>pInfo := sliceAppend (pInfo fm1) (Some p)\<rparr>)
              in w\<lparr>fileEvents := (fileEvents w)(filePath \<mapsto> fm2)\<rparr>)
         | None \<Rightarrow>
             w\<lparr>fileEvents := (fileEvents w)(filePath \<mapsto>
                  \<lparr>mask = msk, delay = 0, finfo = params,
                   pInfo = (case pf of None \<Rightarrow> None | Some p \<Rightarrow> sliceAppend None (Some p))\<rparr>)\<rparr>))"

subsection \<open>Classification\<close>

text \<open>
  Both classifiers return the event kind (0 for none) and the watcher, whose drivers and
  \<open>FileInfoExt\<close> objects they update. \<open>info\<close> is the result of \<open>os.Lstat\<close>: the mode of the
  path, or \<open>None\<close> when there is no file.
\<close>

definition setFileMode :: "nat \<Rightarrow> 32 word \<Rightarrow> ('fa, 'ino) FileWatch \<Rightarrow> ('fa, 'ino) FileWatch" where
  "setFileMode a m w = w\<lparr>finfos := (finfos w)(a := (finfos w a)\<lparr>FileMode := m\<rparr>)\<rparr>"

definition setHash :: "nat \<Rightarrow> 8 word list \<Rightarrow> ('fa, 'ino) FileWatch \<Rightarrow> ('fa, 'ino) FileWatch" where
  "setHash a h w = w\<lparr>finfos := (finfos w)(a := (finfos w a)\<lparr>Hash := h\<rparr>)\<rparr>"

definition setPath :: "nat \<Rightarrow> string \<Rightarrow> ('fa, 'ino) FileWatch \<Rightarrow> ('fa, 'ino) FileWatch" where
  "setPath a p w = w\<lparr>finfos := (finfos w)(a := (finfos w a)\<lparr>finfo_Path := p\<rparr>)\<rparr>"

definition setContainerId :: "nat \<Rightarrow> string \<Rightarrow> ('fa, 'ino) FileWatch \<Rightarrow> ('fa, 'ino) FileWatch" where
  "setContainerId a cid w = w\<lparr>finfos := (finfos w)(a := (finfos w a)\<lparr>ContainerId := cid\<rparr>)\<rparr>"

definition handleFileEvents ::
  "('fa, 'ino) drivers \<Rightarrow> env \<Rightarrow> ('fa, 'ino) FileWatch \<Rightarrow> fileMod \<Rightarrow> 32 word option \<Rightarrow>
     string \<Rightarrow> int \<Rightarrow> 32 word \<times> ('fa, 'ino) FileWatch" where
  "handleFileEvents drv e w fmod info fullPath pid =
     (case info of
        Some im \<Rightarrow>
          if (mask fmod AND inodeMovedMask) > 0 then
            (fileEventMovedTo, addFile drv True (finfo fmod) w)
          else if (mask fmod AND IN_ATTRIB) > 0 then
            (fileEventAttr, setFileMode (finfo fmod) im w)
          else if (mask fmod AND (IN_ACCESS OR IN_CLOSE_WRITE OR IN_MODIFY)) > 0 then
            (case GetFileHash e fullPath of
               Some hash \<Rightarrow>
                 if hash \<noteq> Hash (finfos w (finfo fmod)) then
                   (if \<not> HashZero e (Hash (finfos w (finfo fmod))) then
                      (fileEventModified, setHash (finfo fmod) hash w)
                    else
                      (if (mask fmod AND (IN_CLOSE_WRITE OR IN_MODIFY)) > 0
                       then fileEventModified else fileEventAccessed,
                       setHash (finfo fmod) hash w))
                 else (fileEventAccessed, w)
             | None \<Rightarrow>
                 (if (mask fmod AND (IN_CLOSE_WRITE OR IN_MODIFY)) > 0
                  then fileEventModified else fileEventAccessed, w))
          else (0, w)
      | None \<Rightarrow>
          if (mask fmod AND inodeMovedMask) > 0 then (fileEventMovedFrom, w)
          else (fileEventRemoved, removeFile drv fullPath w))"

text \<open>
  The kind of a new symbolic link: \<open>fileEventDirSymCreate\<close> when the link can be read and
  its target, taken inside the container's root or beside the link, is a directory.
\<close>

fun natDigits :: "nat \<Rightarrow> string" where
  "natDigits n =
     (if n < 10 then [char_of (48 + n)]
      else natDigits (n div 10) @ [char_of (48 + n mod 10)])"

definition strconv_Itoa :: "int \<Rightarrow> string" where
  "strconv_Itoa i = (if i < 0 then CHR ''-'' # natDigits (nat (- i)) else natDigits (nat i))"

definition symCreateEvent :: "env \<Rightarrow> string \<Rightarrow> int \<Rightarrow> 32 word" where
  "symCreateEvent e fullPath pid =
     (case Readlink e fullPath of
        None \<Rightarrow> fileEventSymCreate
      | Some link_to \<Rightarrow>
          (let target =
                 (if strings_HasPrefix link_to ''/''
                  then filepath_Join [''/proc/'' @ strconv_Itoa pid @ ''/root'', link_to]
                  else filepath_Join [filepath_Dir fullPath, link_to])
           in case Stat e target of
                Some m \<Rightarrow> if IsDir m then fileEventDirSymCreate else fileEventSymCreate
              | None \<Rightarrow> fileEventSymCreate))"

text \<open>
  The end of the create branch of \<open>handleDirEvents\<close>: the files found under the new path
  get the container id, the last of them is entered under the base name of \<open>path\<close>, and
  the directory is armed again with them.
\<close>

definition addNewDirFiles ::
  "('fa, 'ino) drivers \<Rightarrow> env \<Rightarrow> fileMod \<Rightarrow> string \<Rightarrow> string \<Rightarrow> int \<Rightarrow>
     ('fa, 'ino) FileWatch \<Rightarrow> ('fa, 'ino) FileWatch" where
  "addNewDirFiles drv e fmod fullPath p pid w =
     (let fi = finfos w (finfo fmod);
          r = (case GetFileInfoExtFromPath e pid fullPath (Filter fi) (Protect fi) (UserAdded fi) of
                 None \<Rightarrow> (Map.empty, w)
               | Some files \<Rightarrow>
                   fold (\<lambda>(a, f) (m, w').
                           (m(filepath_Base p \<mapsto> a),
                            setContainerId a (ContainerId (finfos w' (finfo fmod)))
                              (w'\<lparr>finfos := (finfos w')(a := f)\<rparr>)))
                     files (Map.empty, w))
      in addDir drv True (finfo fmod) (fst r) (snd r))"

definition handleDirEvents ::
  "('fa, 'ino) drivers \<Rightarrow> env \<Rightarrow> ('fa, 'ino) FileWatch \<Rightarrow> fileMod \<Rightarrow> 32 word option \<Rightarrow>
     string \<Rightarrow> string \<Rightarrow> int \<Rightarrow> 32 word \<times> ('fa, 'ino) FileWatch" where
  "handleDirEvents drv e w fmod info fullPath p pid =
     (case info of
        Some im \<Rightarrow>
          (let bIsDir = IsDir im
           in if (mask fmod AND (IN_MOVED_TO OR IN_CREATE)) > 0 then
                (if (mask fmod AND IN_MOVED_TO) > 0 then
                   (if bIsDir then fileEventDirMovedTo else fileEventMovedTo,
                    addNewDirFiles drv e fmod fullPath p pid w)
                 else if bIsDir then
                   (let w1 = setFileMode (finfo fmod) im (setPath (finfo fmod) fullPath w)
                    in if \<not> fr_recursive (Filter (finfos w1 (finfo fmod)))
                       then (fileEventDirCreate, w1)
                       else (fileEventDirCreate, addNewDirFiles drv e fmod fullPath p pid w1))
                 else if (im AND ModeSymlink) \<noteq> 0 then
                   (symCreateEvent e fullPath pid, addNewDirFiles drv e fmod fullPath p pid w)
                 else (fileEventCreate, addFile drv False (finfo fmod) w))
              else if (mask fmod AND IN_ATTRIB) > 0 then
                (if bIsDir then fileEventDirAttr else fileEventAttr, w)
              else if (mask fmod AND (IN_ACCESS OR IN_CLOSE_WRITE OR IN_MODIFY)) > 0 then
                (if \<not> bIsDir then
                   (case GetFileHash e fullPath of
                      Some hash \<Rightarrow>
                        if hash \<noteq> Hash (finfos w (finfo fmod)) then
                          (if \<not> HashZero e (Hash (finfos w (finfo fmod)))
                           then fileEventModified else fileEventAccessed,
                           setHash (finfo fmod) hash w)
                        else (fileEventAccessed, w)
                    | None \<Rightarrow>
                        (if (mask fmod AND IN_MODIFY) > 0 then fileEventModified
                         else fileEventAccessed, w))
                 else (fileEventAccessed, w))
              else (0, w))
      | None \<Rightarrow>
          if fullPath = finfo_Path (finfos w (finfo fmod)) then (fileEventDirRemoved, w)
          else
            (if (mask fmod AND inodeMovedMask) > 0 then
               (if (mask fmod AND IN_ISDIR) > 0 then fileEventDirMovedFrom else fileEventMovedFrom)
             else fileEventRemoved,
             removeFile drv fullPath w))"

subsection \<open>The flush\<close>

text \<open>
  One round of the loop of \<open>HandleWatchedFiles\<close>, for the pending event \<open>fmod\<close> of
  \<open>fullPath\<close>: the watcher and the messages sent.
\<close>

definition handleWatchedFile ::
  "('fa, 'ino) drivers \<Rightarrow> env \<Rightarrow> string \<Rightarrow> fileMod \<Rightarrow> ('fa, 'ino) FileWatch \<Rightarrow>
     ('fa, 'ino) FileWatch \<times> MonitorMessage list" where
  "handleWatchedFile drv e fullPath fmod w =
     (let (pid, p) = ParseContainerFilePath e fullPath
      in if IsPidValid e pid then
           (let info = Lstat e fullPath;
                (event, w1) =
                  (if IsDir (FileMode (finfos w (finfo fmod))) \<or>
                      (case info of Some im \<Rightarrow> IsDir im | None \<Rightarrow> False)
                   then handleDirEvents drv e w fmod info fullPath p pid
                   else handleFileEvents drv e w fmod info fullPath pid)
            in if event \<noteq> 0 then learnFromEvents e w1 pid fmod p event else (w1, []))
         else (w, []))"

text \<open>
  \<open>HandleWatchedFiles\<close> takes the pending events, empties the map and handles the copies
  one by one. Go leaves the order of a map's keys open: \<open>ks\<close> is the order of this run,
  and \<open>envAt k\<close> is the environment at the moment the entry of \<open>k\<close> is handled.
\<close>

fun handleEvents ::
  "('fa, 'ino) drivers \<Rightarrow> (string \<Rightarrow> env) \<Rightarrow> (string \<rightharpoonup> fileMod) \<Rightarrow> string list \<Rightarrow>
     ('fa, 'ino) FileWatch \<Rightarrow> ('fa, 'ino) FileWatch \<times> MonitorMessage list" where
  "handleEvents drv envAt events [] w = (w, [])"
| "handleEvents drv envAt events (k # ks) w =
     (case events k of
        None \<Rightarrow> handleEvents drv envAt events ks w
      | Some fmod \<Rightarrow>
          (let (w1, ms) = handleWatchedFile drv (envAt k) k fmod w;
               (w2, ms') = handleEvents drv envAt events ks w1
           in (w2, ms @ ms')))"

definition HandleWatchedFiles ::
  "('fa, 'ino) drivers \<Rightarrow> (string \<Rightarrow> env) \<Rightarrow> string list \<Rightarrow> ('fa, 'ino) FileWatch \<Rightarrow>
     ('fa, 'ino) FileWatch \<times> MonitorMessage list" where
  "HandleWatchedFiles drv envAt ks w =
     handleEvents drv envAt (fileEvents w) ks (w\<lparr>fileEvents := Map.empty\<rparr>)"

subsection \<open>Starting and ending a container's watch\<close>

text \<open>
  \<open>addCoreFile\<close>, first loop: a single file whose directory is in the list (and that is
  not one of the files the runtime adds) moves under that directory and takes its
  filter; any other gets the container id and is armed. \<open>dirList\<close> is Go's map from a
  directory path to its \<open>FileInfoExt\<close>, in the order the second loop meets its entries.
\<close>

fun addCoreSingles ::
  "('fa, 'ino) drivers \<Rightarrow> bool \<Rightarrow> string \<Rightarrow> (string \<times> nat) list \<Rightarrow> nat list \<Rightarrow>
     ('fa, 'ino) FileWatch \<Rightarrow> ('fa, 'ino) FileWatch" where
  "addCoreSingles drv bIncINotify cid dirList [] w = w"
| "addCoreSingles drv bIncINotify cid dirList (a # rest) w =
     (case (case map_of dirList (filepath_Dir (finfo_Path (finfos w a))) of
              Some d \<Rightarrow> if \<not> isRunTimeAddedFile (finfo_Path (finfos w a)) then Some d else None
            | None \<Rightarrow> None) of
        Some d \<Rightarrow>
          (let h1 = (finfos w)(a := (finfos w a)\<lparr>Filter := Filter (finfos w d)\<rparr>);
               h2 = h1(d := (h1 d)\<lparr>Children := Children (h1 d) @ [a]\<rparr>)
           in addCoreSingles drv bIncINotify cid dirList rest (w\<lparr>finfos := h2\<rparr>))
      | None \<Rightarrow>
          addCoreSingles drv bIncINotify cid dirList rest
            (addFile drv bIncINotify a (setContainerId a cid w)))"

text \<open>Second loop: every directory is armed with its children, entered by base name.\<close>

fun addCoreDirs ::
  "('fa, 'ino) drivers \<Rightarrow> bool \<Rightarrow> string \<Rightarrow> (string \<times> nat) list \<Rightarrow>
     ('fa, 'ino) FileWatch \<Rightarrow> ('fa, 'ino) FileWatch" where
  "addCoreDirs drv bIncINotify cid [] w = w"
| "addCoreDirs drv bIncINotify cid ((k, d) # rest) w =
     (let r = fold (\<lambda>a (m, w'). (m(filepath_Base (finfo_Path (finfos w' a)) \<mapsto> a),
                                  setContainerId a cid w'))
                (Children (finfos w d)) (Map.empty, w);
          w1 = setContainerId d cid (snd r)
      in addCoreDirs drv bIncINotify cid rest (addDir drv bIncINotify d (fst r) w1))"

definition addCoreFile ::
  "('fa, 'ino) drivers \<Rightarrow> bool \<Rightarrow> string \<Rightarrow> (string \<times> nat) list \<Rightarrow> nat list \<Rightarrow>
     ('fa, 'ino) FileWatch \<Rightarrow> ('fa, 'ino) FileWatch" where
  "addCoreFile drv bIncINotify cid dirList singleFiles w =
     addCoreDirs drv bIncINotify cid dirList
       (addCoreSingles drv bIncINotify cid dirList singleFiles w)"

text \<open>The two flags that \<open>StartWatch\<close> passes to \<open>SetMode\<close>, as (access, perm).\<close>

definition startFlags :: "bool \<Rightarrow> string \<Rightarrow> int \<Rightarrow> bool \<Rightarrow> bool \<Rightarrow> bool \<times> bool" where
  "startFlags isAufs md rootPid capBlock bNeuvectorSvc =
     (if md = PolicyModeEnforce \<and> \<not> isAufs \<and> capBlock then (False, True)
      else if rootPid = 1 \<or> bNeuvectorSvc then (False, False)
      else if md = PolicyModeLearn then (True, False)
      else (False, False))"

text \<open>
  \<open>StartWatch\<close>. The profile is the one of \<open>conf\<close> with the mode filled in, as the code
  writes the default into it. The objects that \<open>getCoreFile\<close> allocates are entered in the
  store before the files are armed.
\<close>

definition StartWatch ::
  "('fa, 'ino) drivers \<Rightarrow> env \<Rightarrow> ('fa, 'ino) FileWatch \<Rightarrow> string \<Rightarrow> int \<Rightarrow> FsmonConfig \<Rightarrow>
     bool \<Rightarrow> bool \<Rightarrow> ('fa, 'ino) FileWatch" where
  "StartWatch drv e w cid rootPid conf capBlock bNeuvectorSvc =
     (if \<not> bEnable w then w
      else if \<not> IsPidValid e rootPid then w
      else
        (let prof = (if Mode (Profile conf) = [] then (Profile conf)\<lparr>Mode := PolicyModeLearn\<rparr>
                     else Profile conf);
             (access, perm) = startFlags (aufs w) (Mode prof) rootPid capBlock bNeuvectorSvc;
             (dirs, files, objs) = getCoreFile e cid rootPid prof;
             w1 = w\<lparr>finfos := fold (\<lambda>(a, f) h. h(a := f)) objs (finfos w)\<rparr>;
             w2 = w1\<lparr>fanotifier :=
                       fa_SetMode drv rootPid access perm capBlock bNeuvectorSvc (fanotifier w1)\<rparr>;
             w3 = addCoreFile drv (\<not> bNeuvectorSvc) cid dirs files w2;
             w4 = w3\<lparr>fanotifier := fa_StartMonitor drv rootPid (fanotifier w3)\<rparr>;
             grp = (case groups w4 rootPid of
                      Some g \<Rightarrow> g
                    | None \<Rightarrow>
                        \<lparr>bNeuvector = bNeuvectorSvc, profile = prof, mode = [],
                         applyRules = Map.empty, learnRules = Map.empty, startAt = now e\<rparr>);
             w5 = w4\<lparr>groups := (groups w4)(rootPid \<mapsto> grp\<lparr>profile := prof, mode := Mode prof\<rparr>)\<rparr>
         in if bNeuvectorSvc \<or> rootPid = 1 then w5
            else
              (case Rule conf of
                 Some rl \<Rightarrow> UpdateAccessRules drv w5 (Group prof) rootPid rl
               | None \<Rightarrow> w5)))"

definition ContainerCleanup ::
  "('fa, 'ino) drivers \<Rightarrow> env \<Rightarrow> ('fa, 'ino) FileWatch \<Rightarrow> int \<Rightarrow> bool \<Rightarrow>
     ('fa, 'ino) FileWatch" where
  "ContainerCleanup drv e w rootPid bLeave =
     (if \<not> bEnable w then w
      else
        w\<lparr>fanotifier := fa_ContainerCleanup drv rootPid (fanotifier w),
          inotifier := ino_ContainerCleanup drv rootPid (inotifier w),
          fileEvents :=
            (\<lambda>p. if fst (ParseContainerFilePath e p) = rootPid then None else fileEvents w p),
          groups :=
            (case groups w rootPid of
               Some grp \<Rightarrow>
                 if bLeave then (groups w)(rootPid := None)
                 else (groups w)(rootPid \<mapsto>
                        grp\<lparr>applyRules := Map.empty, learnRules := Map.empty\<rparr>)
             | None \<Rightarrow> groups w)\<rparr>)"

subsection \<open>Queries and construction\<close>

text \<open>A \<open>nil\<close> result is \<open>None\<close>.\<close>

definition GetWatchFileList ::
  "('fa, 'ino) drivers \<Rightarrow> ('fa, 'ino) FileWatch \<Rightarrow> int \<Rightarrow> CLUSFileMonitorFile list option" where
  "GetWatchFileList drv w rootPid =
     (if \<not> bEnable w then None else fa_GetWatchFileList drv rootPid (fanotifier w))"

definition GetAllFileMonitorFile ::
  "('fa, 'ino) drivers \<Rightarrow> ('fa, 'ino) FileWatch \<Rightarrow> CLUSFileMonitorFile list option" where
  "GetAllFileMonitorFile drv w =
     (if \<not> bEnable w then None else fa_GetWatches drv (fanotifier w))"

definition GetProbeData ::
  "('fa, 'ino) drivers \<Rightarrow> ('fa, 'ino) FileWatch \<Rightarrow> FmonProbeData option" where
  "GetProbeData drv w =
     (if \<not> bEnable w then None
      else Some \<lparr>NFileEvents = int (card (dom (fileEvents w))),
                 NGroups = int (card (dom (groups w))),
                 Fan = fa_GetProbeData drv (fanotifier w),
                 Ino = ino_GetProbeData drv (inotifier w)\<rparr>)"

text \<open>
  The pointer \<open>w.fanotifier\<close>. \<open>NewFileWatcher\<close> returns a disabled watcher before it
  assigns the drivers, and nothing else assigns them, so the pointer is \<open>nil\<close> exactly
  when the watcher is disabled.
\<close>

definition fanotifier_ptr :: "('fa, 'ino) FileWatch \<Rightarrow> 'fa option" where
  "fanotifier_ptr w = (if bEnable w then Some (fanotifier w) else None)"

text \<open>
  \<open>SetNVProtectFlag\<close> writes the flag of the watcher and then the flag of the fanotify
  driver through \<open>w.fanotifier\<close>, without testing \<open>bEnable\<close>. On a \<open>nil\<close> pointer the second
  write is a nil pointer dereference: the call panics and leaves the first write behind.
  \<open>setFa\<close> is the write to the driver's field. A panic is \<open>Inl\<close>, with the watcher as the
  call left it.
\<close>

datatype error = NilPointerDereference

definition SetNVProtectFlag ::
  "(bool \<Rightarrow> 'fa \<Rightarrow> 'fa) \<Rightarrow> ('fa, 'ino) FileWatch \<Rightarrow> bool \<Rightarrow>
     (error \<times> ('fa, 'ino) FileWatch) + ('fa, 'ino) FileWatch" where
  "SetNVProtectFlag setFa w bEnabled =
     (let w1 = w\<lparr>bNVProtect := bEnabled\<rparr>
      in case fanotifier_ptr w1 of
           None \<Rightarrow> Inl (NilPointerDereference, w1)
         | Some fa \<Rightarrow> Inr (w1\<lparr>fanotifier := setFa bEnabled fa\<rparr>))"

record FileMonitorConfig =
  ProfileEnable :: bool
  IsAufs :: bool
  EnableTrace :: bool
  NVProtect :: bool

text \<open>
  \<open>NewFileWatcher\<close>: \<open>newFa\<close> and \<open>newIno\<close> are the results of \<open>NewFaNotify\<close> and
  \<open>NewInotify\<close> (\<open>None\<close> for an error, which fails the construction), \<open>faNil\<close> and \<open>inoNil\<close>
  stand for the \<open>nil\<close> drivers of a disabled watcher, \<open>h\<close> is the store at that time.
\<close>

definition NewFileWatcher ::
  "FileMonitorConfig \<Rightarrow> 'fa \<Rightarrow> 'ino \<Rightarrow> 'fa option \<Rightarrow> 'ino option \<Rightarrow> (nat \<Rightarrow> FileInfoExt) \<Rightarrow>
     ('fa, 'ino) FileWatch option" where
  "NewFileWatcher config faNil inoNil newFa newIno h =
     (let fw = \<lparr>bEnable = ProfileEnable config, aufs = IsAufs config,
                bNVProtect = NVProtect config, fanotifier = faNil, inotifier = inoNil,
                fileEvents = Map.empty, groups = Map.empty, finfos = h\<rparr>
      in if \<not> bEnable fw then Some fw
         else
           (case newFa of
              None \<Rightarrow> None
            | Some n \<Rightarrow>
                (case newIno of
                   None \<Rightarrow> None
                 | Some ni \<Rightarrow> Some (fw\<lparr>fanotifier := n, inotifier := ni\<rparr>))))"

text \<open>
  The group map after \<open>StartWatch\<close> has registered the group of \<open>pid\<close> and before it
  applies the access rule of the configuration.
\<close>

definition registered ::
  "env \<Rightarrow> ('fa, 'ino) FileWatch \<Rightarrow> int \<Rightarrow> FsmonConfig \<Rightarrow> bool \<Rightarrow> int \<rightharpoonup> groupInfo" where
  "registered e w pid conf nv =
     (let prof = (if Mode (Profile conf) = [] then (Profile conf)\<lparr>Mode := PolicyModeLearn\<rparr>
                  else Profile conf);
          grp = (case groups w pid of
                   Some g \<Rightarrow> g
                 | None \<Rightarrow> \<lparr>bNeuvector = nv, profile = prof, mode = [],
                      applyRules = Map.empty, learnRules = Map.empty, startAt = now e\<rparr>)
      in (groups w)(pid \<mapsto> grp\<lparr>profile := prof, mode := Mode prof\<rparr>))"

section \<open>Runs of the watcher\<close>

text \<open>
  The states the watcher can reach: it is constructed, and then the public operations,
  the drivers' callback, the two ticks of \<open>loop\<close> and the handling of single events
  follow in any order. \<open>HandleWatchedFiles\<close> releases the lock between its events, so
  other operations may run between two calls of \<open>learnFromEvents\<close>: the rule \<open>r_learn\<close>
  lets one event be handled at any moment. The drivers exist only in an enabled watcher,
  so only an enabled watcher is called back. The parameter \<open>G\<close> restricts the rule
  updates a run may make: \<open>G w rootPid conf\<close> says that \<open>conf\<close> may be applied to the
  group of \<open>rootPid\<close> in state \<open>w\<close>.
\<close>

inductive reachable ::
  "(('fa, 'ino) FileWatch \<Rightarrow> int \<Rightarrow> CLUSFileAccessRule \<Rightarrow> bool) \<Rightarrow> ('fa, 'ino) drivers \<Rightarrow>
     ('fa, 'ino) FileWatch \<Rightarrow> bool"
  for G :: "('fa, 'ino) FileWatch \<Rightarrow> int \<Rightarrow> CLUSFileAccessRule \<Rightarrow> bool"
  and drv :: "('fa, 'ino) drivers" where
  r_new: "NewFileWatcher config faNil inoNil newFa newIno h = Some w \<Longrightarrow> reachable G drv w"
| r_start:
    "reachable G drv w \<Longrightarrow>
     (\<forall>rl. Rule conf = Some rl \<longrightarrow> \<not> bNeuvectorSvc \<longrightarrow> rootPid \<noteq> 1 \<longrightarrow> G w rootPid rl) \<Longrightarrow>
     reachable G drv (StartWatch drv e w cid rootPid conf capBlock bNeuvectorSvc)"
| r_update:
    "reachable G drv w \<Longrightarrow> G w rootPid conf \<Longrightarrow>
     reachable G drv (UpdateAccessRules drv w name rootPid conf)"
| r_notify:
    "reachable G drv w \<Longrightarrow> bEnable w \<Longrightarrow>
     reachable G drv (cbNotify drv w filePath msk params pf)"
| r_flush:
    "reachable G drv w \<Longrightarrow> set ks = dom (fileEvents w) \<Longrightarrow> distinct ks \<Longrightarrow>
     reachable G drv (fst (HandleWatchedFiles drv envAt ks w))"
| r_learn:
    "reachable G drv w \<Longrightarrow> reachable G drv (fst (learnFromEvents e w rootPid fmod p event))"
| r_report:
    "reachable G drv w \<Longrightarrow> reachable G drv (fst (reportLearningRules w))"
| r_cleanup:
    "reachable G drv w \<Longrightarrow> reachable G drv (ContainerCleanup drv e w rootPid bLeave)"

text \<open>
  The rule sets as the specification writes them: \<open>learn_rules[g][f]\<close> and
  \<open>apply_rules[g][f]\<close> are sets of process paths, empty when the map has no entry for
  the key or there is no group.
\<close>

definition ruleSet :: "(string \<rightharpoonup> string set) \<Rightarrow> string \<Rightarrow> string set" where
  "ruleSet m f = (case m f of Some s \<Rightarrow> s | None \<Rightarrow> {})"

definition learn_rules :: "('fa, 'ino) FileWatch \<Rightarrow> int \<Rightarrow> string \<Rightarrow> string set" where
  "learn_rules w pid f = (case groups w pid of Some g \<Rightarrow> ruleSet (learnRules g) f | None \<Rightarrow> {})"

definition apply_rules :: "('fa, 'ino) FileWatch \<Rightarrow> int \<Rightarrow> string \<Rightarrow> string set" where
  "apply_rules w pid f = (case groups w pid of Some g \<Rightarrow> ruleSet (applyRules g) f | None \<Rightarrow> {})"

text \<open>The learned and the applied paths of every filter key of every group are disjoint.\<close>

definition rulesDisjoint :: "('fa, 'ino) FileWatch \<Rightarrow> bool" where
  "rulesDisjoint w = (\<forall>pid f. learn_rules w pid f \<inter> apply_rules w pid f = {})"

text \<open>Every rule update is allowed.\<close>

definition anyRule :: "('fa, 'ino) FileWatch \<Rightarrow> int \<Rightarrow> CLUSFileAccessRule \<Rightarrow> bool" where
  "anyRule w rootPid conf = True"

text \<open>
  A rule update is fresh for a state when none of the applications it lists for a
  customer-added filter key is at that moment among the learned paths of that key.
\<close>

definition rulesFresh :: "('fa, 'ino) FileWatch \<Rightarrow> int \<Rightarrow> CLUSFileAccessRule \<Rightarrow> bool" where
  "rulesFresh w rootPid conf =
     (\<forall>idx rl. rule_Filters conf idx = Some rl \<longrightarrow> rule_CustomerAdd rl \<longrightarrow>
        learn_rules w rootPid idx \<inter> set (Apps rl) = {})"

text \<open>
  The paths that one event teaches a filter key: the non-empty paths of its processes
  that are not among the applied paths \<open>A\<close> of the key.
\<close>

definition newPaths :: "string set \<Rightarrow> ProcInfo option list \<Rightarrow> string set" where
  "newPaths A ps = {proc_Path pi | pi. Some pi \<in> set ps \<and> proc_Path pi \<noteq> [] \<and> proc_Path pi \<notin> A}"

text \<open>
  The match predicate as the specification words it, to compare with \<open>filterPathMatch\<close>:
  the pattern is built from the directory of the filter's path.
\<close>

definition specPathMatch ::
  "(string \<Rightarrow> (string \<Rightarrow> bool) option) \<Rightarrow> string \<Rightarrow> CLUSFileMonitorFilter \<Rightarrow> bool" where
  "specPathMatch compile p flt =
     (if Regex flt = [] then p = Path flt
      else
        (case compile (''^'' @ filepath_Dir (Path flt) @ ''/'' @ Regex flt @ ''$'') of
           Some regx \<Rightarrow> regx p
         | None \<Rightarrow> False))"

section \<open>A concrete setting\<close>

text \<open>
  Drivers that keep, as their state, the list of the calls made to them (the newest
  last), to run the monitor on concrete inputs and to see what it asks of its drivers.
\<close>

datatype faCall =
    FaAddMonitorFile string nat
  | FaAddMonitorDirFile string nat
  | FaRemoveMonitorFile string
  | FaSetMode int bool bool bool bool
  | FaStartMonitor int
  | FaUpdateAccessRule int
  | FaContainerCleanup int

datatype inoCall =
    InoAddMonitorFile string nat
  | InoAddMonitorDirFile string nat
  | InoRemoveMonitorFile string
  | InoContainerCleanup int

definition callDrivers :: "(faCall list, inoCall list) drivers" where
  "callDrivers =
     \<lparr>fa_AddMonitorFile = (\<lambda>p flt prot ua a fa. fa @ [FaAddMonitorFile p a]),
      fa_AddMonitorDirFile = (\<lambda>p flt prot ua files a fa. fa @ [FaAddMonitorDirFile p a]),
      fa_RemoveMonitorFile = (\<lambda>p fa. fa @ [FaRemoveMonitorFile p]),
      fa_SetMode = (\<lambda>pid access perm capBlock nv fa. fa @ [FaSetMode pid access perm capBlock nv]),
      fa_StartMonitor = (\<lambda>pid fa. fa @ [FaStartMonitor pid]),
      fa_UpdateAccessRule = (\<lambda>pid conf fa. fa @ [FaUpdateAccessRule pid]),
      fa_ContainerCleanup = (\<lambda>pid fa. fa @ [FaContainerCleanup pid]),
      fa_GetWatchFileList = (\<lambda>pid fa. Some []),
      fa_GetWatches = (\<lambda>fa. Some []),
      fa_GetProbeData = (\<lambda>fa. \<lparr>NRoots = 0, NMntRoots = 0, NDirMarks = 0, NRules = 0,
                                 fa_NPaths = 0, fa_NDirs = 0\<rparr>),
      ino_AddMonitorFile = (\<lambda>p a ino. ino @ [InoAddMonitorFile p a]),
      ino_AddMonitorDirFile = (\<lambda>p a ino. ino @ [InoAddMonitorDirFile p a]),
      ino_RemoveMonitorFile = (\<lambda>p ino. ino @ [InoRemoveMonitorFile p]),
      ino_ContainerCleanup = (\<lambda>pid ino. ino @ [InoContainerCleanup pid]),
      ino_GetProbeData = (\<lambda>ino. \<lparr>NWds = 0, ino_NPaths = 0, ino_NDirs = 0\<rparr>)\<rparr>"

definition isSetMode :: "faCall \<Rightarrow> bool" where
  "isSetMode c = (case c of FaSetMode pid access perm capBlock nv \<Rightarrow> True | _ \<Rightarrow> False)"

text \<open>
  Modelled from the spec: \<open>global.SYS.ParseContainerFilePath\<close> is not among the sources.
  The spec says that paths are always addressed as \<open>/proc/<pid>/root/<container-path>\<close>;
  the function below reads the pid and the path in the container from such a path, and
  gives pid 0 for any other.
\<close>

definition isDigit :: "char \<Rightarrow> bool" where
  "isDigit c = (c \<in> set ''0123456789'')"

definition digitsValue :: "string \<Rightarrow> int" where
  "digitsValue ds = foldl (\<lambda>n c. 10 * n + (int (of_char c) - 48)) 0 ds"

definition parseProcPath :: "string \<Rightarrow> int \<times> string" where
  "parseProcPath p =
     (if strings_HasPrefix p ''/proc/'' then
        (let r = drop 6 p; ds = takeWhile isDigit r; t = dropWhile isDigit r
         in if ds \<noteq> [] \<and> strings_HasPrefix t ''/root/'' then (digitsValue ds, drop 5 t)
            else (0, []))
      else (0, []))"

text \<open>
  An environment with an empty file system at time 100 s: every positive pid is valid,
  no path has a file, the walker finds nothing, and patterns are compiled by \<open>rxCompile\<close>.
\<close>

definition emptyFs :: env where
  "emptyFs =
     \<lparr>IsPidValid = (\<lambda>pid. 0 < pid),
      ParseContainerFilePath = parseProcPath,
      Lstat = (\<lambda>p. None),
      Stat = (\<lambda>p. None),
      Readlink = (\<lambda>p. None),
      GetFileHash = (\<lambda>p. None),
      HashZero = list_all (\<lambda>b. b = 0),
      GetFileInfoExtFromPath = (\<lambda>pid p flt prot ua. None),
      IsPackageLib = (\<lambda>p. False),
      regexp_Compile = rxCompile,
      getCoreFile = (\<lambda>cid pid prof. ([], [], [])),
      estRuleSrc = (\<lambda>cid p denied. []),
      now = 100 * 1000000000\<rparr>"

text \<open>The same with a regular file at every path.\<close>

definition fullFs :: env where
  "fullFs = emptyFs\<lparr>Lstat := (\<lambda>p. Some 0), Stat := (\<lambda>p. Some 0)\<rparr>"

text \<open>
  A store whose objects all describe the watched directory \<open>/bin\<close> of container \<open>c1\<close>
  (pid 42), and an enabled watcher on it with no group and no pending event.
\<close>

definition binDir :: FileInfoExt where
  "binDir =
     \<lparr>ContainerId = ''c1'', finfo_Path = ''/proc/42/root/bin'', FileMode = ModeDir,
      Link = [], Hash = [], Filter = \<lparr>fr_path = ''/bin/.*'', fr_recursive = True\<rparr>,
      Protect = False, UserAdded = True, Children = []\<rparr>"

definition freshWatch :: "(faCall list, inoCall list) FileWatch" where
  "freshWatch =
     \<lparr>bEnable = True, aufs = False, bNVProtect = False, fanotifier = [], inotifier = [],
      fileEvents = Map.empty, groups = Map.empty, finfos = (\<lambda>a. binDir)\<rparr>"

text \<open>The customer's filter on \<open>/bin\<close>, a profile with it, and a process.\<close>

definition binFilter :: CLUSFileMonitorFilter where
  "binFilter =
     \<lparr>Behavior = ''monitor_change'', Path = ''/bin'', Regex = ''.*'', Recursive = True,
      CustomerAdd = True, DerivedGroup = []\<rparr>"

definition binProfile :: CLUSFileMonitorProfile where
  "binProfile = \<lparr>Group = ''nv.c1'', Mode = [], Filters = [binFilter], FiltersCRD = []\<rparr>"

definition fooProc :: ProcInfo where
  "fooProc =
     \<lparr>RootPid = 42, Name = ''foo'', proc_Path = ''/usr/bin/foo'', Cmds = Some [''foo''],
      Pid = 77, EUid = 0, EUser = ''root'', PPid = 42, PName = ''sh'', PPath = ''/bin/sh'',
      Deny = False, InProfile = False\<rparr>"

text \<open>An access rule for the filter's key that lists the given applications.\<close>

definition binRule :: "string list \<Rightarrow> CLUSFileAccessRule" where
  "binRule apps =
     \<lparr>rule_Filters = [''/bin/.*'' \<mapsto> \<lparr>Apps = apps, rule_CustomerAdd = True\<rparr>]\<rparr>"

section \<open>Concrete runs\<close>

text \<open>
  Container \<open>c1\<close> (pid 42) is started with the profile and no access rule; its group is
  then \<open>learnGroup\<close>.
\<close>

definition started :: "(faCall list, inoCall list) FileWatch" where
  "started =
     StartWatch callDrivers emptyFs freshWatch ''c1'' 42 \<lparr>Profile = binProfile, Rule = None\<rparr>
       True False"

definition learnGroup :: groupInfo where
  "learnGroup =
     \<lparr>bNeuvector = False, profile = binProfile\<lparr>Mode := PolicyModeLearn\<rparr>,
      mode = PolicyModeLearn, applyRules = Map.empty, learnRules = Map.empty,
      startAt = 100 * 1000000000\<rparr>"

text \<open>
  The controller sends a rule with no application for the key of the filter; process
  \<open>foo\<close> opens \<open>/bin/ls\<close>; the flush learns its path; a second rule then lists that path.
\<close>

definition ruled :: "(faCall list, inoCall list) FileWatch" where
  "ruled = UpdateAccessRules callDrivers started ''nv.c1'' 42 (binRule [])"

definition accessed :: "(faCall list, inoCall list) FileWatch" where
  "accessed = cbNotify callDrivers ruled ''/proc/42/root/bin/ls'' IN_ACCESS 0 (Some fooProc)"

definition learned :: "(faCall list, inoCall list) FileWatch" where
  "learned =
     fst (HandleWatchedFiles callDrivers (\<lambda>k. fullFs) [''/proc/42/root/bin/ls''] accessed)"

definition overruled :: "(faCall list, inoCall list) FileWatch" where
  "overruled = UpdateAccessRules callDrivers learned ''nv.c1'' 42 (binRule [''/usr/bin/foo''])"

text \<open>The pending event of that access, as the flush hands it to \<open>learnFromEvents\<close>.\<close>

definition lsAccess :: fileMod where
  "lsAccess = \<lparr>mask = IN_ACCESS, delay = 0, finfo = 0, pInfo = Some [Some fooProc]\<rparr>"

text \<open>A file is created in the watched directory and deleted in the same window.\<close>

definition created :: "(faCall list, inoCall list) FileWatch" where
  "created = cbNotify callDrivers started ''/proc/42/root/bin/tmp1'' IN_CREATE 0 None"

definition deleted :: "(faCall list, inoCall list) FileWatch" where
  "deleted = cbNotify callDrivers created ''/proc/42/root/bin/tmp1'' IN_DELETE 0 None"

text \<open>The kernel drops the watch of a path.\<close>

definition ignored :: "(faCall list, inoCall list) FileWatch" where
  "ignored = cbNotify callDrivers started ''/proc/42/root/bin/ls'' IN_IGNORED 0 None"

text \<open>A disabled watcher, and a symbolic link into the container's root.\<close>

definition disabledWatch :: "(faCall list, inoCall list) FileWatch" where
  "disabledWatch = freshWatch\<lparr>bEnable := False\<rparr>"

definition linkedWatch :: "(faCall list, inoCall list) FileWatch" where
  "linkedWatch =
     started\<lparr>finfos := (\<lambda>a. binDir\<lparr>Link := ''/proc/42/root/usr/bin/ls''\<rparr>)\<rparr>"

text \<open>
  A write to a file reported by inotify, which knows no process, and the pending event of
  a file that was created and deleted in one window.
\<close>

definition hostsWrite :: fileMod where
  "hostsWrite = \<lparr>mask = IN_MODIFY, delay = 0, finfo = 0, pInfo = None\<rparr>"

definition tmpEvent :: fileMod where
  "tmpEvent = \<lparr>mask = IN_CREATE OR IN_DELETE, delay = 0, finfo = 0, pInfo = None\<rparr>"

text \<open>
  A run in which the rule of the controller lists an application: the group applies
  \<open>/usr/bin/app\<close>, learns \<open>/usr/bin/foo\<close> from the access to \<open>/bin/ls\<close>, and then
  receives a rule that lists a second application.
\<close>

definition appRuled :: "(faCall list, inoCall list) FileWatch" where
  "appRuled = UpdateAccessRules callDrivers started ''nv.c1'' 42 (binRule [''/usr/bin/app''])"

definition appAccessed :: "(faCall list, inoCall list) FileWatch" where
  "appAccessed =
     cbNotify callDrivers appRuled ''/proc/42/root/bin/ls'' IN_ACCESS 0 (Some fooProc)"

definition appLearned :: "(faCall list, inoCall list) FileWatch" where
  "appLearned =
     fst (HandleWatchedFiles callDrivers (\<lambda>k. fullFs) [''/proc/42/root/bin/ls''] appAccessed)"

definition appUpdated :: "(faCall list, inoCall list) FileWatch" where
  "appUpdated =
     UpdateAccessRules callDrivers appLearned ''nv.c1'' 42
       (binRule [''/usr/bin/app'', ''/usr/bin/bar''])"

text \<open>The customer's filter on \<open>/usr/bin\<close>, with the same regex.\<close>

definition usrBinFilter :: CLUSFileMonitorFilter where
  "usrBinFilter = binFilter\<lparr>Path := ''/usr/bin''\<rparr>"

text \<open>
  The pending event of a directory that was created and deleted in one window, and a
  symbolic link whose target begins with \<open>/root/\<close> and holds it a second time.
\<close>

definition subDirEvent :: fileMod where
  "subDirEvent =
     \<lparr>mask = IN_CREATE OR IN_DELETE OR IN_ISDIR, delay = 0, finfo = 0, pInfo = None\<rparr>"

definition rootLinkedWatch :: "(faCall list, inoCall list) FileWatch" where
  "rootLinkedWatch = started\<lparr>finfos := (\<lambda>a. binDir\<lparr>Link := ''/root/root/x''\<rparr>)\<rparr>"

section \<open>Properties\<close>

subsection \<open>What the helpers leave alone\<close>

lemma set_frames [simp]:
  "groups (setFileMode a m w) = groups w" "fileEvents (setFileMode a m w) = fileEvents w"
  "bEnable (setFileMode a m w) = bEnable w" "fanotifier (setFileMode a m w) = fanotifier w"
  "groups (setHash a h w) = groups w" "fileEvents (setHash a h w) = fileEvents w"
  "bEnable (setHash a h w) = bEnable w" "fanotifier (setHash a h w) = fanotifier w"
  "groups (setPath a p w) = groups w" "fileEvents (setPath a p w) = fileEvents w"
  "bEnable (setPath a p w) = bEnable w" "fanotifier (setPath a p w) = fanotifier w"
  "groups (setContainerId a c w) = groups w" "fileEvents (setContainerId a c w) = fileEvents w"
  "bEnable (setContainerId a c w) = bEnable w" "fanotifier (setContainerId a c w) = fanotifier w"
  by (simp_all add: setFileMode_def setHash_def setPath_def setContainerId_def)

lemma arm_frames [simp]:
  "groups (addFile drv b a w) = groups w" "fileEvents (addFile drv b a w) = fileEvents w"
  "bEnable (addFile drv b a w) = bEnable w"
  "groups (removeFile drv p w) = groups w" "fileEvents (removeFile drv p w) = fileEvents w"
  "bEnable (removeFile drv p w) = bEnable w" "finfos (removeFile drv p w) = finfos w"
  "groups (addDir drv b a fs w) = groups w" "fileEvents (addDir drv b a fs w) = fileEvents w"
  "bEnable (addDir drv b a fs w) = bEnable w"
  by (simp_all add: addFile_def removeFile_def addDir_def Let_def)

lemma newFiles_fold_frames:
  "groups (snd (fold (\<lambda>(a, f) (m, w'). (m(k \<mapsto> a),
       setContainerId a (ContainerId (finfos w' x)) (w'\<lparr>finfos := (finfos w')(a := f)\<rparr>))) files (m0, w)))
     = groups w \<and>
   fileEvents (snd (fold (\<lambda>(a, f) (m, w'). (m(k \<mapsto> a),
       setContainerId a (ContainerId (finfos w' x)) (w'\<lparr>finfos := (finfos w')(a := f)\<rparr>))) files (m0, w)))
     = fileEvents w \<and>
   bEnable (snd (fold (\<lambda>(a, f) (m, w'). (m(k \<mapsto> a),
       setContainerId a (ContainerId (finfos w' x)) (w'\<lparr>finfos := (finfos w')(a := f)\<rparr>))) files (m0, w)))
     = bEnable w"
  by (induction files arbitrary: m0 w) (auto simp: case_prod_beta)

lemma addNewDirFiles_frames [simp]:
  "groups (addNewDirFiles drv e fmod fullPath p pid w) = groups w"
  "fileEvents (addNewDirFiles drv e fmod fullPath p pid w) = fileEvents w"
  "bEnable (addNewDirFiles drv e fmod fullPath p pid w) = bEnable w"
  by (simp_all add: addNewDirFiles_def Let_def newFiles_fold_frames split: option.splits)

lemma handleFileEvents_frames [simp]:
  "groups (snd (handleFileEvents drv e w fmod info fullPath pid)) = groups w"
  "fileEvents (snd (handleFileEvents drv e w fmod info fullPath pid)) = fileEvents w"
  "bEnable (snd (handleFileEvents drv e w fmod info fullPath pid)) = bEnable w"
  by (simp_all add: handleFileEvents_def split: option.splits)

lemma handleDirEvents_frames [simp]:
  "groups (snd (handleDirEvents drv e w fmod info fullPath p pid)) = groups w"
  "fileEvents (snd (handleDirEvents drv e w fmod info fullPath p pid)) = fileEvents w"
  "bEnable (snd (handleDirEvents drv e w fmod info fullPath p pid)) = bEnable w"
  by (simp_all add: handleDirEvents_def Let_def split: option.splits)

lemma learnFromEvents_frames [simp]:
  "fileEvents (fst (learnFromEvents e w rootPid fmod p event)) = fileEvents w"
  "bEnable (fst (learnFromEvents e w rootPid fmod p event)) = bEnable w"
  "fanotifier (fst (learnFromEvents e w rootPid fmod p event)) = fanotifier w"
  "inotifier (fst (learnFromEvents e w rootPid fmod p event)) = inotifier w"
  by (simp_all add: learnFromEvents_def Let_def split: option.splits)

lemma learnFromEvents_dom [simp]:
  "dom (groups (fst (learnFromEvents e w rootPid fmod p event))) = dom (groups w)"
  by (auto simp: learnFromEvents_def Let_def split: option.splits if_splits)

lemma handleWatchedFile_frames [simp]:
  "fileEvents (fst (handleWatchedFile drv e k fmod w)) = fileEvents w"
  "bEnable (fst (handleWatchedFile drv e k fmod w)) = bEnable w"
  "dom (groups (fst (handleWatchedFile drv e k fmod w))) = dom (groups w)"
  by (simp_all add: handleWatchedFile_def Let_def case_prod_beta)

lemma handleEvents_frames [simp]:
  "fileEvents (fst (handleEvents drv envAt evs ks w)) = fileEvents w"
  "bEnable (fst (handleEvents drv envAt evs ks w)) = bEnable w"
  "dom (groups (fst (handleEvents drv envAt evs ks w))) = dom (groups w)"
  by (induction ks arbitrary: w; simp add: case_prod_beta Let_def split: option.splits)+

subsection \<open>Learning\<close>

lemma fold_learnPath: "fold (learnPath A) ps L = L \<union> newPaths A ps"
proof (induction ps arbitrary: L)
  case Nil
  show ?case by (simp add: newPaths_def)
next
  case (Cons pf ps)
  have "newPaths A (pf # ps) = newPaths A [pf] \<union> newPaths A ps"
    by (auto simp: newPaths_def)
  moreover have "learnPath A pf L = L \<union> newPaths A [pf]"
    by (auto simp: learnPath_def newPaths_def split: option.splits)
  ultimately show ?case using Cons.IH [of "learnPath A pf L"] by auto
qed

lemma addLearnedRules_fields [simp]:
  "applyRules (addLearnedRules g flt ps) = applyRules g"
  "profile (addLearnedRules g flt ps) = profile g"
  "mode (addLearnedRules g flt ps) = mode g"
  "startAt (addLearnedRules g flt ps) = startAt g"
  "bNeuvector (addLearnedRules g flt ps) = bNeuvector g"
  by (simp_all add: addLearnedRules_def Let_def split: option.splits)

lemma addLearnedRules_learn:
  "ruleSet (learnRules (addLearnedRules g flt ps)) k =
     ruleSet (learnRules g) k \<union>
       (if filterIndexKey flt = k \<and> applyRules g k \<noteq> None
        then newPaths (ruleSet (applyRules g) k) ps else {})"
  by (auto simp: addLearnedRules_def Let_def ruleSet_def fold_learnPath split: option.splits)

lemma learnFilters_fields [simp]:
  "applyRules (learnFilters c p ps flts g) = applyRules g"
  "profile (learnFilters c p ps flts g) = profile g"
  "mode (learnFilters c p ps flts g) = mode g"
  "startAt (learnFilters c p ps flts g) = startAt g"
  "bNeuvector (learnFilters c p ps flts g) = bNeuvector g"
  by (induction flts arbitrary: g; simp add: learnFilters_def)+

lemma learnFilters_learn:
  "ruleSet (learnRules (learnFilters c p ps flts g)) k =
     ruleSet (learnRules g) k \<union>
       (if (\<exists>flt \<in> set flts. CustomerAdd flt \<and> filterPathMatch c p flt \<and> filterIndexKey flt = k)
           \<and> applyRules g k \<noteq> None
        then newPaths (ruleSet (applyRules g) k) ps else {})"
proof (induction flts arbitrary: g)
  case Nil
  show ?case by (simp add: learnFilters_def)
next
  case (Cons flt flts)
  have step: "learnFilters c p ps (flt # flts) g =
      learnFilters c p ps flts
        (if CustomerAdd flt \<and> filterPathMatch c p flt then addLearnedRules g flt ps else g)"
    by (simp add: learnFilters_def)
  show ?case
    unfolding step Cons.IH
    by (auto simp: addLearnedRules_learn)
qed

lemma learnFromEvents_none:
  "groups w pid = None \<Longrightarrow> learnFromEvents e w pid fmod p event = (w, [])"
  by (simp add: learnFromEvents_def)

lemma learnFromEvents_groups:
  "groups w pid = Some grp \<Longrightarrow>
   groups (fst (learnFromEvents e w pid fmod p event)) =
     (groups w)(pid \<mapsto>
       (if mode grp = PolicyModeLearn \<and> sliceElems (pInfo fmod) \<noteq> []
        then learnFilters (regexp_Compile e) p (sliceElems (pInfo fmod)) (FiltersCRD (profile grp))
               (learnFilters (regexp_Compile e) p (sliceElems (pInfo fmod)) (Filters (profile grp)) grp)
        else grp))"
  by (simp add: learnFromEvents_def Let_def)

lemma learnFromEvents_apply [simp]:
  "apply_rules (fst (learnFromEvents e w pid fmod p event)) = apply_rules w"
proof (cases "groups w pid")
  case None
  then show ?thesis by (simp add: learnFromEvents_none)
next
  case (Some grp)
  show ?thesis
    by (rule ext, rule ext) (simp add: apply_rules_def learnFromEvents_groups [OF Some] Some)
qed

lemma learnFromEvents_learn_other:
  "pid' \<noteq> pid \<Longrightarrow>
   learn_rules (fst (learnFromEvents e w pid fmod p event)) pid' k = learn_rules w pid' k"
  by (cases "groups w pid") (simp_all add: learnFromEvents_none learn_rules_def learnFromEvents_groups)

lemma learnFromEvents_learn:
  "groups w pid = Some grp \<Longrightarrow>
   learn_rules (fst (learnFromEvents e w pid fmod p event)) pid k =
     learn_rules w pid k \<union>
       (if mode grp = PolicyModeLearn \<and> sliceElems (pInfo fmod) \<noteq> [] \<and>
           (\<exists>flt \<in> set (Filters (profile grp) @ FiltersCRD (profile grp)).
              CustomerAdd flt \<and> filterPathMatch (regexp_Compile e) p flt \<and> filterIndexKey flt = k) \<and>
           applyRules grp k \<noteq> None
        then newPaths (apply_rules w pid k) (sliceElems (pInfo fmod)) else {})"
  by (auto simp: learn_rules_def apply_rules_def learnFromEvents_groups learnFilters_learn)

lemma learnFromEvents_disjoint:
  "rulesDisjoint w \<Longrightarrow> rulesDisjoint (fst (learnFromEvents e w pid fmod p event))"
proof (cases "groups w pid")
  case None
  assume "rulesDisjoint w"
  with None show ?thesis by (simp add: learnFromEvents_none)
next
  case (Some grp)
  assume d: "rulesDisjoint w"
  have new: "newPaths A ps \<inter> A = {}" for A ps by (auto simp: newPaths_def)
  show ?thesis
    unfolding rulesDisjoint_def
  proof (intro allI)
    fix pid' f
    show "learn_rules (fst (learnFromEvents e w pid fmod p event)) pid' f \<inter>
          apply_rules (fst (learnFromEvents e w pid fmod p event)) pid' f = {}"
    proof (cases "pid' = pid")
      case True
      then show ?thesis
        using d new [of "apply_rules w pid f" "sliceElems (pInfo fmod)"]
        unfolding rulesDisjoint_def learnFromEvents_apply learnFromEvents_learn [OF Some] True
        by (auto split: if_splits)
    next
      case False
      then show ?thesis
        using d by (simp add: learnFromEvents_learn_other rulesDisjoint_def)
    qed
  qed
qed

lemma rulesDisjoint_cong: "groups w' = groups w \<Longrightarrow> rulesDisjoint w' = rulesDisjoint w"
  by (simp add: rulesDisjoint_def learn_rules_def apply_rules_def)

lemma handleWatchedFile_disjoint:
  "rulesDisjoint w \<Longrightarrow> rulesDisjoint (fst (handleWatchedFile drv e k fmod w))"
  by (auto simp: handleWatchedFile_def Let_def case_prod_beta
      intro!: learnFromEvents_disjoint
      simp: rulesDisjoint_cong [of "snd (handleDirEvents drv e w fmod info fullPath p pid)" w for info fullPath p pid]
            rulesDisjoint_cong [of "snd (handleFileEvents drv e w fmod info fullPath pid)" w for info fullPath pid])

lemma handleEvents_disjoint:
  "rulesDisjoint w \<Longrightarrow> rulesDisjoint (fst (handleEvents drv envAt evs ks w))"
  by (induction ks arbitrary: w)
     (auto simp: case_prod_beta Let_def handleWatchedFile_disjoint split: option.splits)

lemma HandleWatchedFiles_disjoint:
  "rulesDisjoint w \<Longrightarrow> rulesDisjoint (fst (HandleWatchedFiles drv envAt ks w))"
  unfolding HandleWatchedFiles_def
  by (rule handleEvents_disjoint) (simp add: rulesDisjoint_def learn_rules_def apply_rules_def)

lemma cbNotify_groups [simp]: "groups (cbNotify drv w fp msk a pf) = groups w"
  by (simp add: cbNotify_def Let_def split: option.splits)

lemma cbNotify_bEnable [simp]: "bEnable (cbNotify drv w fp msk a pf) = bEnable w"
  by (simp add: cbNotify_def Let_def split: option.splits)

lemma report_disjoint: "rulesDisjoint w \<Longrightarrow> rulesDisjoint (fst (reportLearningRules w))"
  unfolding rulesDisjoint_def learn_rules_def apply_rules_def reportLearningRules_def
  by (auto simp: ruleSet_def split: option.splits if_splits)

lemma cleanup_disjoint: "rulesDisjoint w \<Longrightarrow> rulesDisjoint (ContainerCleanup drv e w pid b)"
  unfolding rulesDisjoint_def learn_rules_def apply_rules_def ContainerCleanup_def
  by (auto simp: ruleSet_def split: option.splits if_splits)

lemma update_disjoint:
  "rulesDisjoint w \<Longrightarrow> rulesFresh w pid conf \<Longrightarrow> rulesDisjoint (UpdateAccessRules drv w name pid conf)"
  unfolding rulesDisjoint_def rulesFresh_def learn_rules_def apply_rules_def UpdateAccessRules_def
  by (auto simp: ruleSet_def split: option.splits if_splits)

subsection \<open>Starting a watch\<close>

lemma addCoreSingles_frames [simp]:
  "groups (addCoreSingles drv b cid dl as w) = groups w"
  "fileEvents (addCoreSingles drv b cid dl as w) = fileEvents w"
  "bEnable (addCoreSingles drv b cid dl as w) = bEnable w"
  by (induction as arbitrary: w; simp add: Let_def split: option.splits)+

lemma children_fold_frames:
  "groups (snd (fold (\<lambda>a (m, w'). (m(filepath_Base (finfo_Path (finfos w' a)) \<mapsto> a),
       setContainerId a cid w')) cs (m0, w))) = groups w \<and>
   fileEvents (snd (fold (\<lambda>a (m, w'). (m(filepath_Base (finfo_Path (finfos w' a)) \<mapsto> a),
       setContainerId a cid w')) cs (m0, w))) = fileEvents w \<and>
   bEnable (snd (fold (\<lambda>a (m, w'). (m(filepath_Base (finfo_Path (finfos w' a)) \<mapsto> a),
       setContainerId a cid w')) cs (m0, w))) = bEnable w \<and>
   fanotifier (snd (fold (\<lambda>a (m, w'). (m(filepath_Base (finfo_Path (finfos w' a)) \<mapsto> a),
       setContainerId a cid w')) cs (m0, w))) = fanotifier w"
  by (induction cs arbitrary: m0 w) (auto simp: case_prod_beta)

lemma addCoreDirs_frames [simp]:
  "groups (addCoreDirs drv b cid dl w) = groups w"
  "fileEvents (addCoreDirs drv b cid dl w) = fileEvents w"
  "bEnable (addCoreDirs drv b cid dl w) = bEnable w"
  by (induction drv b cid dl w rule: addCoreDirs.induct; simp add: Let_def children_fold_frames)+

lemma addCoreFile_frames [simp]:
  "groups (addCoreFile drv b cid dl as w) = groups w"
  "fileEvents (addCoreFile drv b cid dl as w) = fileEvents w"
  "bEnable (addCoreFile drv b cid dl as w) = bEnable w"
  by (simp_all add: addCoreFile_def)

lemma UpdateAccessRules_frames [simp]:
  "bEnable (UpdateAccessRules drv w name pid conf) = bEnable w"
  "fileEvents (UpdateAccessRules drv w name pid conf) = fileEvents w"
  "dom (groups (UpdateAccessRules drv w name pid conf)) = dom (groups w)"
  by (auto simp: UpdateAccessRules_def split: option.splits)

lemma StartWatch_frames [simp]:
  "bEnable (StartWatch drv e w cid pid conf cb nv) = bEnable w"
  "fileEvents (StartWatch drv e w cid pid conf cb nv) = fileEvents w"
  by (simp_all add: StartWatch_def Let_def case_prod_beta split: option.splits)

lemma StartWatch_disabled: "\<not> bEnable w \<Longrightarrow> StartWatch drv e w cid pid conf cb nv = w"
  by (simp add: StartWatch_def)

lemma StartWatch_groups:
  "bEnable w \<Longrightarrow> IsPidValid e pid \<Longrightarrow>
   groups (StartWatch drv e w cid pid conf cb nv) =
     (if nv \<or> pid = 1 then registered e w pid conf nv
      else case Rule conf of
             None \<Rightarrow> registered e w pid conf nv
           | Some rl \<Rightarrow>
               groups (UpdateAccessRules drv (w\<lparr>groups := registered e w pid conf nv\<rparr>)
                         (Group (Profile conf)) pid rl))"
  by (simp add: StartWatch_def Let_def case_prod_beta registered_def UpdateAccessRules_def
      split: option.splits)

lemma registered_rules:
  "learn_rules (w\<lparr>groups := registered e w pid conf nv\<rparr>) = learn_rules w"
  "apply_rules (w\<lparr>groups := registered e w pid conf nv\<rparr>) = apply_rules w"
  by (rule ext, rule ext, simp add: learn_rules_def apply_rules_def registered_def Let_def ruleSet_def
       split: option.splits)+

lemma StartWatch_disjoint:
  assumes d: "rulesDisjoint w"
    and g: "\<forall>rl. Rule conf = Some rl \<longrightarrow> \<not> nv \<longrightarrow> pid \<noteq> 1 \<longrightarrow> rulesFresh w pid rl"
  shows "rulesDisjoint (StartWatch drv e w cid pid conf cb nv)"
proof (cases "bEnable w \<and> IsPidValid e pid")
  case False
  then show ?thesis using d by (auto simp: StartWatch_def)
next
  case True
  let ?w = "w\<lparr>groups := registered e w pid conf nv\<rparr>"
  have dr: "rulesDisjoint ?w"
    using d by (simp add: rulesDisjoint_def registered_rules)
  have fr: "rulesFresh (w\<lparr>groups := registered e w pid conf b\<rparr>) pid rl = rulesFresh w pid rl"
    for rl b
    by (simp add: rulesFresh_def registered_rules)
  show ?thesis
  proof (cases "nv \<or> pid = 1 \<or> Rule conf = None")
    case True
    with \<open>bEnable w \<and> IsPidValid e pid\<close>
    have "groups (StartWatch drv e w cid pid conf cb nv) = groups ?w"
      by (auto simp: StartWatch_groups)
    then have "rulesDisjoint (StartWatch drv e w cid pid conf cb nv) = rulesDisjoint ?w"
      by (rule rulesDisjoint_cong)
    with dr show ?thesis by simp
  next
    case False
    then obtain rl where rl: "Rule conf = Some rl" by auto
    with g False have "rulesFresh ?w pid rl" by (simp add: fr)
    then have "rulesDisjoint (UpdateAccessRules drv ?w (Group (Profile conf)) pid rl)"
      using dr by (rule update_disjoint [rotated])
    moreover have "groups (StartWatch drv e w cid pid conf cb nv) =
        groups (UpdateAccessRules drv ?w (Group (Profile conf)) pid rl)"
      using rl False \<open>bEnable w \<and> IsPidValid e pid\<close> by (simp add: StartWatch_groups)
    then have "rulesDisjoint (StartWatch drv e w cid pid conf cb nv) =
        rulesDisjoint (UpdateAccessRules drv ?w (Group (Profile conf)) pid rl)"
      by (rule rulesDisjoint_cong)
    ultimately show ?thesis by simp
  qed
qed

lemma new_disjoint:
  "NewFileWatcher config faNil inoNil newFa newIno h = Some w \<Longrightarrow> rulesDisjoint w"
  by (auto simp: NewFileWatcher_def Let_def rulesDisjoint_def learn_rules_def
      split: if_splits option.splits)

subsection \<open>The concrete runs, evaluated\<close>

lemmas const_defs = IN_ACCESS_def IN_MODIFY_def IN_ATTRIB_def IN_CLOSE_WRITE_def IN_MOVED_FROM_def
  IN_MOVED_TO_def IN_MOVE_def IN_CREATE_def IN_DELETE_def IN_DELETE_SELF_def IN_MOVE_SELF_def
  IN_UNMOUNT_def IN_IGNORED_def IN_ISDIR_def inodeMovedMask_def ModeDir_def ModeSymlink_def IsDir_def
  fileEventAttr_def fileEventDirAttr_def fileEventCreate_def fileEventModified_def fileEventRemoved_def
  fileEventSymCreate_def fileEventSymModified_def fileEventDirSymCreate_def fileEventDirSymModified_def
  fileEventReplaced_def fileEventDirCreate_def fileEventDirRemoved_def fileEventAccessed_def
  fileEventDenied_def fileEventMovedFrom_def fileEventMovedTo_def fileEventDirMovedFrom_def
  fileEventDirMovedTo_def PolicyModeLearn_def PolicyModeEvaluate_def PolicyModeEnforce_def
  PolicyActionViolate_def PolicyActionDeny_def

lemma started_eq:
  "started = freshWatch\<lparr>fanotifier := [FaSetMode 42 True False True False, FaStartMonitor 42],
                         groups := [42 \<mapsto> learnGroup]\<rparr>"
  by (simp add: started_def StartWatch_def emptyFs_def freshWatch_def binProfile_def startFlags_def
      PolicyModeLearn_def PolicyModeEnforce_def callDrivers_def addCoreFile_def learnGroup_def)

lemma parse_ls: "parseProcPath ''/proc/42/root/bin/ls'' = (42, ''/bin/ls'')"
  by (simp add: parseProcPath_def strings_HasPrefix_def isDigit_def digitsValue_def)

lemma match_ls: "filterPathMatch rxCompile ''/bin/ls'' binFilter"
  by (simp add: filterPathMatch_def binFilter_def filepath_Dir_def filepath_Clean_def
      rxCompile_def rxMeta_def)

lemma binRule_apply:
  "(\<lambda>idx. case rule_Filters (binRule apps) idx of
            None \<Rightarrow> None
          | Some rl \<Rightarrow> if rule_CustomerAdd rl then Some (set (Apps rl)) else None) =
   [''/bin/.*'' \<mapsto> set apps]"
  by (rule ext) (simp add: binRule_def)

lemma ruled_eq:
  "ruled = freshWatch\<lparr>fanotifier := [FaSetMode 42 True False True False, FaStartMonitor 42,
                                      FaUpdateAccessRule 42],
                       groups := [42 \<mapsto> learnGroup\<lparr>applyRules := [''/bin/.*'' \<mapsto> {}]\<rparr>]\<rparr>"
  by (simp add: ruled_def started_eq UpdateAccessRules_def freshWatch_def binRule_apply callDrivers_def)

lemma accessed_eq:
  "accessed = ruled\<lparr>fileEvents := [''/proc/42/root/bin/ls'' \<mapsto> lsAccess]\<rparr>"
  by (simp add: accessed_def cbNotify_def ruled_eq freshWatch_def
      lsAccess_def sliceAppend_def sliceElems_def const_defs)

lemma binFilter_simps:
  "CustomerAdd binFilter" "filterIndexKey binFilter = ''/bin/.*''"
  by (simp_all add: binFilter_def filterIndexKey_def)

lemma ls_learnt:
  "learnFromEvents fullFs ruled 42 lsAccess ''/bin/ls'' fileEventAccessed =
     (ruled\<lparr>groups := [42 \<mapsto> learnGroup\<lparr>applyRules := [''/bin/.*'' \<mapsto> {}],
                                         learnRules := [''/bin/.*'' \<mapsto> {''/usr/bin/foo''}]\<rparr>]\<rparr>, [])"
  by (simp add: learnFromEvents_def ruled_eq freshWatch_def learnGroup_def lsAccess_def sliceElems_def
      binProfile_def learnFilters_def fullFs_def emptyFs_def match_ls addLearnedRules_def
      binFilter_simps learnPath_def fooProc_def const_defs Let_def
      isRunTimeAddedFile_def filepath_Clean_def strings_HasSuffix_def)

lemma learned_eq:
  "learned = ruled\<lparr>groups := [42 \<mapsto> learnGroup\<lparr>applyRules := [''/bin/.*'' \<mapsto> {}],
                                         learnRules := [''/bin/.*'' \<mapsto> {''/usr/bin/foo''}]\<rparr>]\<rparr>"
proof -
  have cls: "handleDirEvents callDrivers fullFs ruled lsAccess (Some 0) ''/proc/42/root/bin/ls''
      ''/bin/ls'' 42 = (fileEventAccessed, ruled)"
    by (simp add: handleDirEvents_def lsAccess_def fullFs_def emptyFs_def const_defs)
  have one: "handleWatchedFile callDrivers fullFs ''/proc/42/root/bin/ls'' lsAccess ruled =
      learnFromEvents fullFs ruled 42 lsAccess ''/bin/ls'' fileEventAccessed"
    using cls
    by (simp add: handleWatchedFile_def fullFs_def emptyFs_def parse_ls ruled_eq freshWatch_def
        binDir_def lsAccess_def const_defs)
  have reset: "accessed\<lparr>fileEvents := Map.empty\<rparr> = ruled"
    by (simp add: accessed_eq ruled_eq freshWatch_def)
  have ev: "fileEvents accessed ''/proc/42/root/bin/ls'' = Some lsAccess"
    by (simp add: accessed_eq)
  show ?thesis
    unfolding learned_def HandleWatchedFiles_def reset
    by (simp add: ev one ls_learnt)
qed

lemma overruled_rules:
  "learn_rules overruled 42 ''/bin/.*'' = {''/usr/bin/foo''} \<and>
   apply_rules overruled 42 ''/bin/.*'' = {''/usr/bin/foo''}"
  by (simp add: overruled_def learned_eq ruled_eq freshWatch_def UpdateAccessRules_def
      learn_rules_def apply_rules_def ruleSet_def binRule_def)

lemma fresh_reachable:
  "reachable G callDrivers freshWatch"
proof -
  have "NewFileWatcher \<lparr>ProfileEnable = True, IsAufs = False, EnableTrace = False, NVProtect = False\<rparr>
          [] [] (Some []) (Some []) (\<lambda>a. binDir) = Some freshWatch"
    by (simp add: NewFileWatcher_def freshWatch_def)
  then show ?thesis by (rule reachable.r_new)
qed

lemma started_reachable: "reachable G callDrivers started"
  unfolding started_def by (rule reachable.r_start [OF fresh_reachable]) simp

lemma learned_reachable:
  assumes "G started 42 (binRule [])"
  shows "reachable G callDrivers learned"
proof -
  have "reachable G callDrivers ruled"
    unfolding ruled_def
    by (rule reachable.r_update [where G = G and w = started, OF started_reachable assms])
  then have "reachable G callDrivers accessed"
    unfolding accessed_def by (rule reachable.r_notify) (simp add: ruled_eq freshWatch_def)
  then show ?thesis
    unfolding learned_def by (rule reachable.r_flush) (simp_all add: accessed_eq)
qed

text \<open>The run with an application in the rule.\<close>

lemma appRuled_eq:
  "appRuled = freshWatch\<lparr>fanotifier := [FaSetMode 42 True False True False, FaStartMonitor 42,
                                      FaUpdateAccessRule 42],
                       groups := [42 \<mapsto> learnGroup\<lparr>applyRules := [''/bin/.*'' \<mapsto> {''/usr/bin/app''}]\<rparr>]\<rparr>"
  by (simp add: appRuled_def started_eq UpdateAccessRules_def freshWatch_def binRule_apply
      callDrivers_def)

lemma appAccessed_eq:
  "appAccessed = appRuled\<lparr>fileEvents := [''/proc/42/root/bin/ls'' \<mapsto> lsAccess]\<rparr>"
  by (simp add: appAccessed_def cbNotify_def appRuled_eq freshWatch_def
      lsAccess_def sliceAppend_def sliceElems_def const_defs)

lemma app_ls_learnt:
  "learnFromEvents fullFs appRuled 42 lsAccess ''/bin/ls'' fileEventAccessed =
     (appRuled\<lparr>groups := [42 \<mapsto> learnGroup\<lparr>applyRules := [''/bin/.*'' \<mapsto> {''/usr/bin/app''}],
                                         learnRules := [''/bin/.*'' \<mapsto> {''/usr/bin/foo''}]\<rparr>]\<rparr>, [])"
  by (simp add: learnFromEvents_def appRuled_eq freshWatch_def learnGroup_def lsAccess_def
      sliceElems_def binProfile_def learnFilters_def fullFs_def emptyFs_def match_ls
      addLearnedRules_def binFilter_simps learnPath_def fooProc_def const_defs Let_def
      isRunTimeAddedFile_def filepath_Clean_def strings_HasSuffix_def)

lemma appLearned_eq:
  "appLearned =
     appRuled\<lparr>groups := [42 \<mapsto> learnGroup\<lparr>applyRules := [''/bin/.*'' \<mapsto> {''/usr/bin/app''}],
                                         learnRules := [''/bin/.*'' \<mapsto> {''/usr/bin/foo''}]\<rparr>]\<rparr>"
proof -
  have cls: "handleDirEvents callDrivers fullFs appRuled lsAccess (Some 0) ''/proc/42/root/bin/ls''
      ''/bin/ls'' 42 = (fileEventAccessed, appRuled)"
    by (simp add: handleDirEvents_def lsAccess_def fullFs_def emptyFs_def const_defs)
  have one: "handleWatchedFile callDrivers fullFs ''/proc/42/root/bin/ls'' lsAccess appRuled =
      learnFromEvents fullFs appRuled 42 lsAccess ''/bin/ls'' fileEventAccessed"
    using cls
    by (simp add: handleWatchedFile_def fullFs_def emptyFs_def parse_ls appRuled_eq freshWatch_def
        binDir_def lsAccess_def const_defs)
  have reset: "appAccessed\<lparr>fileEvents := Map.empty\<rparr> = appRuled"
    by (simp add: appAccessed_eq appRuled_eq freshWatch_def)
  have ev: "fileEvents appAccessed ''/proc/42/root/bin/ls'' = Some lsAccess"
    by (simp add: appAccessed_eq)
  show ?thesis
    unfolding appLearned_def HandleWatchedFiles_def reset
    by (simp add: ev one app_ls_learnt)
qed

lemma appLearned_rules:
  "learn_rules appLearned 42 ''/bin/.*'' = {''/usr/bin/foo''}"
  "apply_rules appLearned 42 ''/bin/.*'' = {''/usr/bin/app''}"
  by (simp_all add: appLearned_eq appRuled_eq freshWatch_def learn_rules_def apply_rules_def
      ruleSet_def)

lemma appUpdated_rules:
  "learn_rules appUpdated 42 ''/bin/.*'' = {''/usr/bin/foo''}"
  "apply_rules appUpdated 42 ''/bin/.*'' = {''/usr/bin/app'', ''/usr/bin/bar''}"
  by (simp_all add: appUpdated_def appLearned_eq appRuled_eq freshWatch_def UpdateAccessRules_def
      learn_rules_def apply_rules_def ruleSet_def binRule_def)

lemma binRule_fresh:
  "rulesFresh w 42 (binRule apps) = (learn_rules w 42 ''/bin/.*'' \<inter> set apps = {})"
  by (auto simp: rulesFresh_def binRule_def split: if_splits)

lemma appUpdated_reachable: "reachable rulesFresh callDrivers appUpdated"
proof -
  have "learn_rules started 42 ''/bin/.*'' = {}"
    by (simp add: learn_rules_def started_eq freshWatch_def learnGroup_def ruleSet_def)
  then have "rulesFresh started 42 (binRule [''/usr/bin/app''])"
    by (simp add: binRule_fresh)
  then have "reachable rulesFresh callDrivers appRuled"
    unfolding appRuled_def
    by (rule reachable.r_update [where G = rulesFresh and w = started, OF started_reachable])
  then have "reachable rulesFresh callDrivers appAccessed"
    unfolding appAccessed_def by (rule reachable.r_notify) (simp add: appRuled_eq freshWatch_def)
  then have l: "reachable rulesFresh callDrivers appLearned"
    unfolding appLearned_def by (rule reachable.r_flush) (simp_all add: appAccessed_eq)
  have "rulesFresh appLearned 42 (binRule [''/usr/bin/app'', ''/usr/bin/bar''])"
    by (simp add: binRule_fresh appLearned_rules)
  with l show ?thesis
    unfolding appUpdated_def
    by (rule reachable.r_update [where G = rulesFresh and w = appLearned])
qed

subsection \<open>Disjoint rule sets\<close>

text \<open>
  C1, as the claim states it, fails: \<open>UpdateAccessRules\<close> replaces the applied rules of a
  group and leaves its learned rules as they are. In the run below the group of pid 42
  has learned \<open>/usr/bin/foo\<close> for the key \<open>/bin/.*\<close>, and the next rule update, before
  the learned rules are flushed, lists the same path: the state is reachable and both
  sets hold the path.
\<close>

theorem C1_counterexample:
  "reachable anyRule callDrivers overruled \<and>
   learn_rules overruled 42 ''/bin/.*'' \<inter> apply_rules overruled 42 ''/bin/.*'' = {''/usr/bin/foo''}"
proof -
  have "reachable anyRule callDrivers learned"
    by (rule learned_reachable) (simp add: anyRule_def)
  then have "reachable anyRule callDrivers overruled"
    unfolding overruled_def by (rule reachable.r_update) (simp add: anyRule_def)
  then show ?thesis by (simp add: overruled_rules)
qed

text \<open>
  C1 (amended): in every state of a run of \<open>StartWatch\<close>, \<open>UpdateAccessRules\<close>, the
  callback, the flush, single events, the learning tick and \<open>ContainerCleanup\<close> in which
  every rule update (also the one \<open>StartWatch\<close> makes) is fresh, that is, lists for a
  customer-added key no path that is at that moment among the learned paths of the same
  key, the sets \<open>learn_rules[f]\<close> and \<open>apply_rules[f]\<close> of every group are disjoint for
  every key \<open>f\<close>.
\<close>

theorem C1_fresh_runs_disjoint:
  "reachable rulesFresh drv w \<Longrightarrow> rulesDisjoint w"
proof (induction rule: reachable.induct)
  case (r_new config faNil inoNil newFa newIno h w)
  then show ?case by (rule new_disjoint)
next
  case (r_start w conf bNeuvectorSvc rootPid e cid capBlock)
  then show ?case by (intro StartWatch_disjoint) auto
next
  case (r_update w rootPid conf name)
  then show ?case by (intro update_disjoint)
next
  case (r_notify w filePath msk params pf)
  then show ?case by (simp add: rulesDisjoint_cong [of "cbNotify drv w filePath msk params pf" w])
next
  case (r_flush w ks envAt)
  then show ?case by (intro HandleWatchedFiles_disjoint)
next
  case (r_learn w e rootPid fmod p event)
  then show ?case by (intro learnFromEvents_disjoint)
next
  case (r_report w)
  then show ?case by (intro report_disjoint)
next
  case (r_cleanup w e rootPid bLeave)
  then show ?case by (intro cleanup_disjoint)
qed


theorem C1_fresh_runs_disjoint_witness:
  "reachable rulesFresh callDrivers appUpdated \<and> rulesDisjoint appUpdated \<and>
   learn_rules appUpdated 42 ''/bin/.*'' = {''/usr/bin/foo''} \<and>
   apply_rules appUpdated 42 ''/bin/.*'' = {''/usr/bin/app'', ''/usr/bin/bar''}"
  using C1_fresh_runs_disjoint [OF appUpdated_reachable] appUpdated_reachable appUpdated_rules
  by blast

subsection \<open>The learning tick\<close>

text \<open>
  The tick empties the learned rules of every group. In the run above it sends the one
  rule learned, for the group of the profile, the key of the filter and the path of the
  process.
\<close>

lemma reportLearningRules_groups:
  "groups (fst (reportLearningRules w)) =
     (\<lambda>pid. map_option (\<lambda>g. g\<lparr>learnRules := Map.empty\<rparr>) (groups w pid))"
proof
  fix pid
  have "g\<lparr>learnRules := Map.empty\<rparr> = g" if "dom (learnRules g) = {}" for g :: groupInfo
    using that by simp
  then show "groups (fst (reportLearningRules w)) pid =
      map_option (\<lambda>g. g\<lparr>learnRules := Map.empty\<rparr>) (groups w pid)"
    by (auto simp: reportLearningRules_def split: option.splits)
qed

lemma learned_reported:
  "snd (reportLearningRules learned) = {(''nv.c1'', ''/bin/.*'', ''/usr/bin/foo'')} \<and>
   learn_rules (fst (reportLearningRules learned)) 42 ''/bin/.*'' = {}"
proof -
  have "snd (reportLearningRules learned) = {(''nv.c1'', ''/bin/.*'', ''/usr/bin/foo'')}"
    by (auto simp: reportLearningRules_def learned_eq ruled_eq freshWatch_def learnGroup_def
        binProfile_def split: if_splits)
  moreover have "learn_rules (fst (reportLearningRules learned)) 42 ''/bin/.*'' = {}"
    by (simp add: learn_rules_def reportLearningRules_groups learned_eq ruled_eq freshWatch_def
        ruleSet_def)
  ultimately show ?thesis ..
qed

subsection \<open>What an event teaches\<close>

lemma learnFilters_idle:
  "\<forall>flt \<in> set flts. \<not> (CustomerAdd flt \<and> filterPathMatch c p flt) \<Longrightarrow>
   learnFilters c p ps flts g = g"
  by (induction flts) (auto simp: learnFilters_def)

lemma learnFromEvents_idle:
  assumes "groups w pid = Some grp"
    and "mode grp \<noteq> PolicyModeLearn \<or> sliceElems (pInfo fmod) = [] \<or>
         (\<forall>flt \<in> set (Filters (profile grp) @ FiltersCRD (profile grp)).
            \<not> (CustomerAdd flt \<and> filterPathMatch (regexp_Compile e) p flt))"
  shows "groups (fst (learnFromEvents e w pid fmod p event)) = groups w"
proof -
  have "(groups w)(pid \<mapsto> grp) = groups w"
    using assms(1) by (simp add: fun_upd_idem)
  with assms show ?thesis
    by (auto simp: learnFromEvents_groups learnFilters_idle)
qed

lemma newPaths_single:
  "newPaths A [Some pi] = (if proc_Path pi \<noteq> [] \<and> proc_Path pi \<notin> A then {proc_Path pi} else {})"
  by (auto simp: newPaths_def)

lemma match_ls_env: "filterPathMatch (regexp_Compile fullFs) ''/bin/ls'' binFilter"
  by (simp add: fullFs_def emptyFs_def match_ls)

lemma started_group: "groups started 42 = Some learnGroup"
  by (simp add: started_eq)

lemma ruled_group: "groups ruled 42 = Some (learnGroup\<lparr>applyRules := [''/bin/.*'' \<mapsto> {}]\<rparr>)"
  by (simp add: ruled_eq)

text \<open>
  C2, as the claim states it, fails: \<open>addLearnedRules\<close> learns nothing for a filter key
  that has no entry in \<open>applyRules\<close> (the branch that logs "no access rules"). Right
  after \<open>StartWatch\<close> without a rule the group of pid 42 is in mode Learn, the
  customer-added filter matches \<open>/bin/ls\<close>, the path of the process is not among the
  applied paths of the key, and yet it is not learned.
\<close>

theorem C2_counterexample:
  "groups started 42 = Some learnGroup \<and> mode learnGroup = PolicyModeLearn \<and>
   pInfo lsAccess = Some [Some fooProc] \<and> proc_Path fooProc = ''/usr/bin/foo'' \<and>
   binFilter \<in> set (Filters (profile learnGroup)) \<and> CustomerAdd binFilter \<and>
   filterPathMatch (regexp_Compile fullFs) ''/bin/ls'' binFilter \<and>
   ''/usr/bin/foo'' \<notin> apply_rules started 42 (filterIndexKey binFilter) \<and>
   ''/usr/bin/foo'' \<notin>
     learn_rules (fst (learnFromEvents fullFs started 42 lsAccess ''/bin/ls'' fileEventAccessed)) 42
       (filterIndexKey binFilter)"
proof -
  have n: "applyRules learnGroup (filterIndexKey binFilter) = None"
    by (simp add: learnGroup_def)
  have l: "learn_rules started 42 (filterIndexKey binFilter) = {}"
    by (simp add: learn_rules_def started_group ruleSet_def learnGroup_def)
  have "learn_rules (fst (learnFromEvents fullFs started 42 lsAccess ''/bin/ls'' fileEventAccessed)) 42
       (filterIndexKey binFilter) = {}"
    unfolding learnFromEvents_learn [OF started_group] by (simp add: n l)
  moreover have "apply_rules started 42 (filterIndexKey binFilter) = {}"
    by (simp add: apply_rules_def started_group ruleSet_def n)
  moreover have "mode learnGroup = PolicyModeLearn \<and> pInfo lsAccess = Some [Some fooProc] \<and>
      proc_Path fooProc = ''/usr/bin/foo'' \<and> binFilter \<in> set (Filters (profile learnGroup))"
    by (simp add: learnGroup_def lsAccess_def fooProc_def binProfile_def)
  ultimately show ?thesis
    using match_ls_env by (simp add: started_group binFilter_simps)
qed

text \<open>
  C2 (amended): when an event is handled for a registered group, the applied rules stay
  as they are, and the learned paths of a key \<open>k\<close> grow by exactly the non-empty paths of
  the event's processes that are not among the applied paths of \<open>k\<close>, provided the mode
  is Learn, the event carries a process, some customer-added filter of the profile (of
  \<open>Filters\<close> or \<open>FiltersCRD\<close>) accepts the path and has key \<open>k\<close>, and \<open>applyRules\<close> has an
  entry for \<open>k\<close>; in every other case they stay as they are, and in a mode other than
  Learn, without a process, or without a customer-added filter accepting the path the
  group map is left unchanged.
\<close>

theorem C2_learnFromEvents_learns:
  assumes "groups w pid = Some grp"
  shows "apply_rules (fst (learnFromEvents e w pid fmod p event)) = apply_rules w \<and>
    (\<forall>k. learn_rules (fst (learnFromEvents e w pid fmod p event)) pid k =
       learn_rules w pid k \<union>
         (if mode grp = PolicyModeLearn \<and> sliceElems (pInfo fmod) \<noteq> [] \<and>
             (\<exists>flt \<in> set (Filters (profile grp) @ FiltersCRD (profile grp)).
                CustomerAdd flt \<and> filterPathMatch (regexp_Compile e) p flt \<and>
                filterIndexKey flt = k) \<and>
             applyRules grp k \<noteq> None
          then newPaths (apply_rules w pid k) (sliceElems (pInfo fmod)) else {})) \<and>
    (mode grp \<noteq> PolicyModeLearn \<or> sliceElems (pInfo fmod) = [] \<or>
       (\<forall>flt \<in> set (Filters (profile grp) @ FiltersCRD (profile grp)).
          \<not> (CustomerAdd flt \<and> filterPathMatch (regexp_Compile e) p flt)) \<longrightarrow>
     groups (fst (learnFromEvents e w pid fmod p event)) = groups w)"
  using learnFromEvents_learn [OF assms] learnFromEvents_idle [OF assms]
  by (intro conjI allI impI) simp_all

theorem C2_learnFromEvents_learns_witness:
  "groups ruled 42 = Some (learnGroup\<lparr>applyRules := [''/bin/.*'' \<mapsto> {}]\<rparr>) \<and>
   apply_rules (fst (learnFromEvents fullFs ruled 42 lsAccess ''/bin/ls'' fileEventAccessed)) 42
     ''/bin/.*'' = {} \<and>
   learn_rules (fst (learnFromEvents fullFs ruled 42 lsAccess ''/bin/ls'' fileEventAccessed)) 42
     ''/bin/.*'' = {''/usr/bin/foo''}"
proof -
  note t = C2_learnFromEvents_learns [OF ruled_group, of fullFs lsAccess "''/bin/ls''" fileEventAccessed]
  have a: "apply_rules ruled 42 ''/bin/.*'' = {}"
    by (simp add: apply_rules_def ruled_group ruleSet_def)
  have l: "learn_rules ruled 42 ''/bin/.*'' = {}"
    by (simp add: learn_rules_def ruled_group ruleSet_def learnGroup_def)
  have c: "mode learnGroup = PolicyModeLearn" "sliceElems (pInfo lsAccess) = [Some fooProc]"
      "Filters (profile learnGroup) = [binFilter]" "FiltersCRD (profile learnGroup) = []"
    by (simp_all add: learnGroup_def lsAccess_def sliceElems_def binProfile_def)
  from t have "apply_rules (fst (learnFromEvents fullFs ruled 42 lsAccess ''/bin/ls'' fileEventAccessed))
      = apply_rules ruled"
    by (rule conjunct1)
  moreover have "learn_rules (fst (learnFromEvents fullFs ruled 42 lsAccess ''/bin/ls''
      fileEventAccessed)) 42 ''/bin/.*'' = {''/usr/bin/foo''}"
    unfolding t [THEN conjunct2, THEN conjunct1, THEN spec, of "''/bin/.*''"]
    by (simp add: c a l binFilter_simps match_ls_env newPaths_single fooProc_def)
  ultimately show ?thesis by (simp add: ruled_group a)
qed

subsection \<open>The match predicate\<close>

text \<open>
  With a regex, \<open>filterPathMatch\<close> builds its pattern from the directory of the candidate
  path and never reads the filter's path, so the answer is the same for every path the
  filter may have.
\<close>

lemma filterPathMatch_ignores_Path:
  assumes "Regex flt \<noteq> []"
  shows "filterPathMatch compile p (flt\<lparr>Path := q\<rparr>) = filterPathMatch compile p flt"
  using assms by (simp add: filterPathMatch_def)

lemma usrBinFilter_simps:
  "Regex usrBinFilter = ''.*''" "Path usrBinFilter = ''/usr/bin''" "Recursive usrBinFilter"
  by (simp_all add: usrBinFilter_def binFilter_def)

text \<open>
  C3: the claim is that \<open>filterPathMatch\<close> accepts \<open>p\<close> exactly when, for an empty regex,
  \<open>p\<close> is the filter's path and otherwise \<open>p\<close> matches \<open>^<dir(f.path)>/<f.regex>$\<close>. The code
  departs from it: the recursive filter with path \<open>/usr/bin\<close> and regex \<open>.*\<close> accepts
  \<open>/opt/x\<close> and \<open>/bin/ls\<close>, which lie outside \<open>/usr\<close>. The predicate of the specification
  rejects both, and so does the test that \<open>getDirFileList\<close> makes with the same pattern,
  because it first requires the file to lie under the filter's path. On \<open>/usr/bin/ls\<close> the
  three agree.
\<close>

theorem C3_filterPathMatch_ignores_filter_path:
  "filterPathMatch rxCompile ''/opt/x'' usrBinFilter \<and>
   \<not> specPathMatch rxCompile ''/opt/x'' usrBinFilter \<and>
   \<not> getDirFileList_keeps rxCompile usrBinFilter ''/opt/x'' \<and>
   filterPathMatch rxCompile ''/bin/ls'' usrBinFilter \<and>
   \<not> specPathMatch rxCompile ''/bin/ls'' usrBinFilter \<and>
   \<not> getDirFileList_keeps rxCompile usrBinFilter ''/bin/ls'' \<and>
   filterPathMatch rxCompile ''/usr/bin/ls'' usrBinFilter \<and>
   specPathMatch rxCompile ''/usr/bin/ls'' usrBinFilter \<and>
   getDirFileList_keeps rxCompile usrBinFilter ''/usr/bin/ls''"
  by (simp add: filterPathMatch_def specPathMatch_def getDirFileList_keeps_def usrBinFilter_simps
      filepath_Dir_def filepath_Clean_def rxCompile_def rxMeta_def strings_HasPrefix_def)

subsection \<open>The flags of StartWatch\<close>

text \<open>
  What \<open>StartWatch\<close> passes to \<open>SetMode\<close> is read off the drivers that record their
  calls: arming the files, starting the monitor and updating the rules add no \<open>SetMode\<close>
  call.
\<close>

lemma arm_setmode [simp]:
  "filter isSetMode (fanotifier (addFile callDrivers b a w)) = filter isSetMode (fanotifier w)"
  "filter isSetMode (fanotifier (addDir callDrivers b a fs w)) = filter isSetMode (fanotifier w)"
  by (simp_all add: addFile_def addDir_def callDrivers_def isSetMode_def Let_def)

lemma addCoreSingles_setmode [simp]:
  "filter isSetMode (fanotifier (addCoreSingles callDrivers b cid dl as w)) =
   filter isSetMode (fanotifier w)"
  by (induction as arbitrary: w) (simp_all add: Let_def split: option.splits)

lemma addCoreDirs_setmode [simp]:
  "filter isSetMode (fanotifier (addCoreDirs callDrivers b cid dl w)) =
   filter isSetMode (fanotifier w)"
  by (induction callDrivers b cid dl w rule: addCoreDirs.induct)
     (simp_all add: Let_def children_fold_frames)

lemma update_setmode [simp]:
  "filter isSetMode (fanotifier (UpdateAccessRules callDrivers w name pid rl)) =
   filter isSetMode (fanotifier w)"
  by (simp add: UpdateAccessRules_def callDrivers_def isSetMode_def split: option.splits)

lemma startFlags_eq:
  "startFlags isAufs md rootPid capBlock nv =
     (rootPid \<noteq> 1 \<and> \<not> nv \<and> md = PolicyModeLearn, md = PolicyModeEnforce \<and> \<not> isAufs \<and> capBlock)"
  by (auto simp: startFlags_def PolicyModeLearn_def PolicyModeEnforce_def)

lemma StartWatch_setmode:
  assumes "bEnable w" "IsPidValid e rootPid"
  shows "filter isSetMode (fanotifier (StartWatch callDrivers e w cid rootPid conf capBlock nv)) =
     filter isSetMode (fanotifier w) @
       [FaSetMode rootPid
          (rootPid \<noteq> 1 \<and> \<not> nv \<and>
             (if Mode (Profile conf) = [] then PolicyModeLearn else Mode (Profile conf)) = PolicyModeLearn)
          ((if Mode (Profile conf) = [] then PolicyModeLearn else Mode (Profile conf)) = PolicyModeEnforce \<and>
             \<not> aufs w \<and> capBlock)
          capBlock nv]"
proof -
  have sm: "filter isSetMode (fa_StartMonitor callDrivers pid fa) = filter isSetMode fa" for pid fa
    by (simp add: callDrivers_def isSetMode_def)
  have st: "filter isSetMode (fa_SetMode callDrivers pid a p c n fa) =
      filter isSetMode fa @ [FaSetMode pid a p c n]" for pid a p c n fa
    by (simp add: callDrivers_def isSetMode_def)
  show ?thesis
    using assms
    by (simp add: StartWatch_def Let_def case_prod_beta startFlags_eq addCoreFile_def sm st
        split: option.splits)
qed

lemma StartWatch_mode:
  assumes "bEnable w" "IsPidValid e rootPid"
  shows "\<exists>g. groups (StartWatch drv e w cid rootPid conf capBlock nv) rootPid = Some g \<and>
     mode g = (if Mode (Profile conf) = [] then PolicyModeLearn else Mode (Profile conf)) \<and>
     Mode (profile g) = (if Mode (Profile conf) = [] then PolicyModeLearn else Mode (Profile conf))"
  using assms
  by (simp add: StartWatch_groups registered_def Let_def UpdateAccessRules_def split: option.splits)

text \<open>
  C4: a call of \<open>StartWatch\<close> on an enabled watcher with a valid root pid registers the
  group with the mode of the profile, or Learn when that is the empty string, and calls
  \<open>SetMode\<close> once, with \<open>perm\<close> true exactly when the mode is Enforce, the file system is
  not AUFS and \<open>capBlock\<close> is true, and with \<open>access\<close> true exactly when the root pid is
  not 1, the container is not the agent's own and the mode is Learn.
\<close>

theorem C4_StartWatch_mode_and_flags:
  assumes "bEnable w" "IsPidValid e rootPid"
  shows "let md = (if Mode (Profile conf) = [] then PolicyModeLearn else Mode (Profile conf));
             w' = StartWatch callDrivers e w cid rootPid conf capBlock bNeuvectorSvc
         in (\<exists>g. groups w' rootPid = Some g \<and> mode g = md \<and> Mode (profile g) = md) \<and>
            filter isSetMode (fanotifier w') =
              filter isSetMode (fanotifier w) @
                [FaSetMode rootPid
                   (rootPid \<noteq> 1 \<and> \<not> bNeuvectorSvc \<and> md = PolicyModeLearn)
                   (md = PolicyModeEnforce \<and> \<not> aufs w \<and> capBlock)
                   capBlock bNeuvectorSvc]"
  unfolding Let_def
  using StartWatch_mode [OF assms] StartWatch_setmode [OF assms] by blast

theorem C4_StartWatch_mode_and_flags_witness:
  "bEnable freshWatch \<and> IsPidValid emptyFs 42 \<and>
   (\<exists>g. groups started 42 = Some g \<and> mode g = PolicyModeLearn) \<and>
   filter isSetMode (fanotifier started) = [FaSetMode 42 True False True False] \<and>
   filter isSetMode (fanotifier (StartWatch callDrivers emptyFs freshWatch ''c1'' 42
       \<lparr>Profile = binProfile\<lparr>Mode := PolicyModeEnforce\<rparr>, Rule = None\<rparr> True False)) =
     [FaSetMode 42 False True True False]"
proof -
  have a: "bEnable freshWatch" "IsPidValid emptyFs 42"
    by (simp_all add: freshWatch_def emptyFs_def)
  have c: "Mode (Profile \<lparr>Profile = binProfile, Rule = None\<rparr>) = []" "fanotifier freshWatch = []"
      "\<not> aufs freshWatch"
      "Mode (Profile \<lparr>Profile = binProfile\<lparr>Mode := PolicyModeEnforce\<rparr>, Rule = None\<rparr>) =
         PolicyModeEnforce"
    by (simp_all add: binProfile_def freshWatch_def)
  have d: "PolicyModeEnforce \<noteq> []" "PolicyModeLearn \<noteq> PolicyModeEnforce"
    by (simp_all add: PolicyModeLearn_def PolicyModeEnforce_def)
  from C4_StartWatch_mode_and_flags [OF a, of "\<lparr>Profile = binProfile, Rule = None\<rparr>" "''c1''" True False,
      folded started_def]
    C4_StartWatch_mode_and_flags [OF a, of "\<lparr>Profile = binProfile\<lparr>Mode := PolicyModeEnforce\<rparr>,
      Rule = None\<rparr>" "''c1''" True False] a d c(2,3)
  show ?thesis
    unfolding Let_def c(1,4) by auto
qed

subsection \<open>Files the runtime writes\<close>

lemma runtime_files:
  "p \<in> {''/etc/hosts'', ''/etc/hostname'', ''/etc/resolv.conf''} \<Longrightarrow>
   isRunTimeAddedFile (filepath_Join [''/root'', p])"
  by (auto simp: isRunTimeAddedFile_def filepath_Clean_def strings_HasSuffix_def)

text \<open>
  C5: an event whose path in the container is \<open>/etc/hosts\<close>, \<open>/etc/hostname\<close> or
  \<open>/etc/resolv.conf\<close> sends no message if its kind is \<open>fileEventAccessed\<close>, or if the
  group is less than 60 seconds old when the event is handled.
\<close>

theorem C5_runtime_files_suppressed:
  assumes "p \<in> {''/etc/hosts'', ''/etc/hostname'', ''/etc/resolv.conf''}"
    and "event = fileEventAccessed \<or>
         (\<exists>grp. groups w rootPid = Some grp \<and> now e - startAt grp < 60 * 1000000000)"
  shows "snd (learnFromEvents e w rootPid fmod p event) = []"
  using runtime_files [OF assms(1)] assms(2)
  by (auto simp: learnFromEvents_def Let_def split: option.splits)

text \<open>The same write is reported once the group is 60 seconds old.\<close>

lemma hosts_reported_later:
  "map Msg (snd (learnFromEvents (emptyFs\<lparr>now := 160 * 1000000000\<rparr>) started 42 hostsWrite
      ''/etc/hosts'' fileEventModified)) = [''File was modified.'']"
  by (simp add: learnFromEvents_def started_group learnGroup_def hostsWrite_def emptyFs_def
      sliceElems_def Let_def sendMsg_def fileEventMsg_def baseMsg_def const_defs)

theorem C5_runtime_files_suppressed_witness:
  "''/etc/hosts'' \<in> {''/etc/hosts'', ''/etc/hostname'', ''/etc/resolv.conf''} \<and>
   groups started 42 = Some learnGroup \<and> now emptyFs - startAt learnGroup < 60 * 1000000000 \<and>
   snd (learnFromEvents emptyFs started 42 hostsWrite ''/etc/hosts'' fileEventModified) = []"
proof -
  have a: "now emptyFs - startAt learnGroup < 60 * 1000000000"
    by (simp add: emptyFs_def learnGroup_def)
  have "snd (learnFromEvents emptyFs started 42 hostsWrite ''/etc/hosts'' fileEventModified) = []"
    by (rule C5_runtime_files_suppressed) (use a started_group in auto)
  with a show ?thesis by (simp add: started_group)
qed

subsection \<open>Cleaning up a container\<close>

text \<open>A disabled watcher never has a group or a pending event.\<close>

lemma dom_empty_map: "dom m = {} \<Longrightarrow> m = Map.empty"
  by auto

lemma report_frames [simp]:
  "bEnable (fst (reportLearningRules w)) = bEnable w"
  "fileEvents (fst (reportLearningRules w)) = fileEvents w"
  "dom (groups (fst (reportLearningRules w))) = dom (groups w)"
  by (auto simp: reportLearningRules_def split: option.splits if_splits)

lemma disabled_idle:
  "reachable G drv w \<Longrightarrow> \<not> bEnable w \<Longrightarrow> dom (groups w) = {} \<and> dom (fileEvents w) = {}"
proof (induction rule: reachable.induct)
  case (r_new config faNil inoNil newFa newIno h w)
  then show ?case
    by (auto simp: NewFileWatcher_def Let_def split: if_splits option.splits)
next
  case (r_start w conf bNeuvectorSvc rootPid e cid capBlock)
  then show ?case by (simp add: StartWatch_disabled)
next
  case (r_update w rootPid conf name)
  then show ?case by simp
next
  case (r_notify w filePath msk params pf)
  then show ?case by simp
next
  case (r_flush w ks envAt)
  then show ?case by (simp add: HandleWatchedFiles_def)
next
  case (r_learn w e rootPid fmod p event)
  then show ?case by simp
next
  case (r_report w)
  then show ?case by simp
next
  case (r_cleanup w e rootPid bLeave)
  then show ?case by (cases "bEnable w") (simp_all add: ContainerCleanup_def)
qed

text \<open>
  C6: in every reachable state, after \<open>ContainerCleanup(rootPid, true)\<close> the group map has
  no entry for \<open>rootPid\<close> and no pending event has a path of that container (a path that
  \<open>ParseContainerFilePath\<close> assigns to \<open>rootPid\<close>); after \<open>ContainerCleanup(rootPid, false)\<close>
  an existing group is kept with empty learned and applied rules and the same profile,
  mode, start time and \<open>bNeuvector\<close>.
\<close>

theorem C6_ContainerCleanup:
  assumes "reachable G drv w"
  shows "groups (ContainerCleanup drv e w rootPid True) rootPid = None \<and>
     (\<forall>p. fst (ParseContainerFilePath e p) = rootPid \<longrightarrow>
          fileEvents (ContainerCleanup drv e w rootPid True) p = None) \<and>
     (\<forall>grp. groups w rootPid = Some grp \<longrightarrow>
        (\<exists>g. groups (ContainerCleanup drv e w rootPid False) rootPid = Some g \<and>
             learnRules g = Map.empty \<and> applyRules g = Map.empty \<and>
             profile g = profile grp \<and> mode g = mode grp \<and> startAt g = startAt grp \<and>
             bNeuvector g = bNeuvector grp))"
proof (cases "bEnable w")
  case True
  then show ?thesis by (auto simp: ContainerCleanup_def split: option.splits)
next
  case False
  from disabled_idle [OF assms False] have "groups w = Map.empty" "fileEvents w = Map.empty"
    by (simp_all add: dom_empty_map)
  with False show ?thesis by (simp add: ContainerCleanup_def)
qed

lemma accessed_reachable: "reachable anyRule callDrivers accessed"
proof -
  have "reachable anyRule callDrivers ruled"
    unfolding ruled_def
    by (rule reachable.r_update [where G = anyRule and w = started, OF started_reachable])
       (simp add: anyRule_def)
  then show ?thesis
    unfolding accessed_def by (rule reachable.r_notify) (simp add: ruled_eq freshWatch_def)
qed

theorem C6_ContainerCleanup_witness:
  "reachable anyRule callDrivers accessed \<and>
   groups accessed 42 = Some (learnGroup\<lparr>applyRules := [''/bin/.*'' \<mapsto> {}]\<rparr>) \<and>
   fileEvents accessed ''/proc/42/root/bin/ls'' = Some lsAccess \<and>
   fst (ParseContainerFilePath emptyFs ''/proc/42/root/bin/ls'') = 42 \<and>
   groups (ContainerCleanup callDrivers emptyFs accessed 42 True) 42 = None \<and>
   fileEvents (ContainerCleanup callDrivers emptyFs accessed 42 True) ''/proc/42/root/bin/ls'' = None \<and>
   (\<exists>g. groups (ContainerCleanup callDrivers emptyFs accessed 42 False) 42 = Some g \<and>
        learnRules g = Map.empty \<and> applyRules g = Map.empty \<and> mode g = PolicyModeLearn)"
proof -
  have g: "groups accessed 42 = Some (learnGroup\<lparr>applyRules := [''/bin/.*'' \<mapsto> {}]\<rparr>)"
    by (simp add: accessed_eq ruled_eq)
  have f: "fileEvents accessed ''/proc/42/root/bin/ls'' = Some lsAccess"
    by (simp add: accessed_eq)
  have p: "fst (ParseContainerFilePath emptyFs ''/proc/42/root/bin/ls'') = 42"
    by (simp add: emptyFs_def parse_ls)
  note t = C6_ContainerCleanup [OF accessed_reachable, of emptyFs 42]
  from t have "groups (ContainerCleanup callDrivers emptyFs accessed 42 True) 42 = None"
    by (rule conjunct1)
  moreover from t p
  have "fileEvents (ContainerCleanup callDrivers emptyFs accessed 42 True) ''/proc/42/root/bin/ls'' = None"
    by blast
  moreover from t g
  have "\<exists>g. groups (ContainerCleanup callDrivers emptyFs accessed 42 False) 42 = Some g \<and>
        learnRules g = Map.empty \<and> applyRules g = Map.empty \<and> mode g = PolicyModeLearn"
    by (auto simp: learnGroup_def)
  ultimately show ?thesis using accessed_reachable g f p by blast
qed

subsection \<open>Create and delete in one window\<close>

lemma learnFromEvents_sends:
  assumes "groups w pid = Some grp" and "event \<noteq> fileEventAccessed"
    and "\<not> (isRunTimeAddedFile (filepath_Join [''/root'', p]) \<and>
            now e - startAt grp < 60 * 1000000000)"
  shows "snd (learnFromEvents e w pid fmod p event) =
     sendMsg e (ContainerId (finfos w (finfo fmod))) (reportPath (finfos w (finfo fmod)) p) event
       (pInfo fmod)"
  using assms by (auto simp: learnFromEvents_def Let_def)

lemma create_delete_not_moved: "((IN_CREATE OR IN_DELETE) AND inodeMovedMask) = 0"
  by (simp add: const_defs)

lemma removed_kinds:
  "fileEventRemoved \<noteq> 0" "fileEventDirRemoved \<noteq> 0"
  "fileEventRemoved \<noteq> fileEventAccessed" "fileEventDirRemoved \<noteq> fileEventAccessed"
  "fileEventRemoved \<noteq> fileEventDirRemoved"
  "fileEventMsg fileEventRemoved = Some ''File deleted from watched directory.''"
  "fileEventMsg fileEventDirRemoved = Some ''Directory was deleted.''"
  by (simp_all add: fileEventMsg_def const_defs)

lemma create_delete_classified:
  assumes "(mask fmod AND inodeMovedMask) = 0"
  shows "handleFileEvents drv e w fmod None fullPath pid = (fileEventRemoved, removeFile drv fullPath w)"
    and "handleDirEvents drv e w fmod None fullPath p pid =
      (if fullPath = finfo_Path (finfos w (finfo fmod)) then (fileEventDirRemoved, w)
       else (fileEventRemoved, removeFile drv fullPath w))"
  using assms
  by (simp_all add: handleFileEvents_def handleDirEvents_def)

lemma parse_tmp: "parseProcPath ''/proc/42/root/bin/tmp1'' = (42, ''/bin/tmp1'')"
  by (simp add: parseProcPath_def strings_HasPrefix_def isDigit_def digitsValue_def)

lemma deleted_eq:
  "deleted = started\<lparr>fileEvents := [''/proc/42/root/bin/tmp1'' \<mapsto> tmpEvent]\<rparr>"
  by (simp add: deleted_def created_def cbNotify_def started_eq freshWatch_def tmpEvent_def
      const_defs)

lemma tmp_not_runtime: "\<not> isRunTimeAddedFile (filepath_Join [''/root'', ''/bin/tmp1''])"
  by (simp add: isRunTimeAddedFile_def filepath_Clean_def strings_HasSuffix_def)

lemma parse_sub: "parseProcPath ''/proc/42/root/bin/sub1'' = (42, ''/bin/sub1'')"
  by (simp add: parseProcPath_def strings_HasPrefix_def isDigit_def digitsValue_def)

lemma parse_bin: "parseProcPath ''/proc/42/root/bin'' = (42, ''/bin'')"
  by (simp add: parseProcPath_def strings_HasPrefix_def isDigit_def digitsValue_def)

lemma sub_not_runtime:
  "\<not> isRunTimeAddedFile (filepath_Join [''/root'', ''/bin/sub1''])"
  "\<not> isRunTimeAddedFile (filepath_Join [''/root'', ''/bin''])"
  by (simp_all add: isRunTimeAddedFile_def filepath_Clean_def strings_HasSuffix_def)

lemma pending_not_moved:
  "(mask tmpEvent AND inodeMovedMask) = 0" "(mask subDirEvent AND inodeMovedMask) = 0"
  by (simp_all add: tmpEvent_def subDirEvent_def const_defs)

lemma started_binDir:
  "finfos started a = binDir" "IsDir (FileMode binDir)"
  "finfo_Path binDir = ''/proc/42/root/bin''"
  by (simp_all add: started_eq freshWatch_def binDir_def IsDir_def ModeDir_def)

text \<open>
  C7, as the claim states it, fails: a path with \<open>IN_CREATE\<close> and \<open>IN_DELETE\<close> pending and
  no file at flush time is classified as removed (the branch commented "file is removed"),
  and the flush sends one message for it. Below, a file is created and deleted in the
  watched directory \<open>/bin\<close> of container 42 within one window.
\<close>

theorem C7_counterexample:
  "fileEvents deleted ''/proc/42/root/bin/tmp1'' = Some tmpEvent \<and>
   mask tmpEvent = IN_CREATE OR IN_DELETE \<and>
   Lstat emptyFs ''/proc/42/root/bin/tmp1'' = None \<and>
   map Msg (snd (HandleWatchedFiles callDrivers (\<lambda>k. emptyFs) [''/proc/42/root/bin/tmp1''] deleted)) =
     [''File deleted from watched directory.'']"
proof -
  have cls: "handleDirEvents callDrivers emptyFs started tmpEvent None ''/proc/42/root/bin/tmp1''
      ''/bin/tmp1'' 42 =
        (fileEventRemoved, removeFile callDrivers ''/proc/42/root/bin/tmp1'' started)"
    by (simp add: create_delete_classified [OF pending_not_moved(1)] started_binDir)
  have one: "handleWatchedFile callDrivers emptyFs ''/proc/42/root/bin/tmp1'' tmpEvent started =
      learnFromEvents emptyFs (removeFile callDrivers ''/proc/42/root/bin/tmp1'' started) 42 tmpEvent
        ''/bin/tmp1'' fileEventRemoved"
    using cls
    by (simp add: handleWatchedFile_def emptyFs_def parse_tmp started_eq freshWatch_def binDir_def
        removed_kinds ModeDir_def IsDir_def)
  have msgs: "map Msg (snd (learnFromEvents emptyFs
      (removeFile callDrivers ''/proc/42/root/bin/tmp1'' started) 42 tmpEvent ''/bin/tmp1''
      fileEventRemoved)) = [''File deleted from watched directory.'']"
    using tmp_not_runtime
    by (simp add: learnFromEvents_def started_group learnGroup_def tmpEvent_def sliceElems_def
        Let_def sendMsg_def removed_kinds baseMsg_def)
  have reset: "deleted\<lparr>fileEvents := Map.empty\<rparr> = started"
    by (simp add: deleted_eq started_eq freshWatch_def)
  have ev: "fileEvents deleted ''/proc/42/root/bin/tmp1'' = Some tmpEvent"
    by (simp add: deleted_eq)
  have "map Msg (snd (HandleWatchedFiles callDrivers (\<lambda>k. emptyFs) [''/proc/42/root/bin/tmp1'']
      deleted)) = [''File deleted from watched directory.'']"
    unfolding HandleWatchedFiles_def reset
    by (simp add: ev one msgs case_prod_beta)
  with ev show ?thesis by (simp add: tmpEvent_def emptyFs_def)
qed

text \<open>
  C7 (amended): if the mask that a watched path has accumulated holds no move bit (as
  the mask of \<open>IN_CREATE\<close> and \<open>IN_DELETE\<close> does, with or without \<open>IN_ISDIR\<close>) and \<open>lstat\<close>
  finds no file at flush time, the flush classifies the path as removed
  (\<open>fileEventDirRemoved\<close> when it is the watched directory itself, \<open>fileEventRemoved\<close>
  otherwise) and, when the pid of the path is valid, its group is registered and the path
  is not a runtime-added file of a group younger than 60 seconds, reports it: exactly one
  message ("File deleted from watched directory." or "Directory was deleted.") when the
  event carries no process info, as inotify events do.
\<close>

theorem C7_create_delete_reported:
  assumes "(mask fmod AND inodeMovedMask) = 0"
    and "Lstat e fullPath = None"
    and "ParseContainerFilePath e fullPath = (pid, p)"
    and "IsPidValid e pid"
    and "groups w pid = Some grp"
    and "\<not> (isRunTimeAddedFile (filepath_Join [''/root'', p]) \<and>
            now e - startAt grp < 60 * 1000000000)"
  shows "let fi = finfos w (finfo fmod);
             ev = (if IsDir (FileMode fi) \<and> fullPath = finfo_Path fi then fileEventDirRemoved
                   else fileEventRemoved)
         in snd (handleWatchedFile drv e fullPath fmod w) =
              sendMsg e (ContainerId fi) (reportPath fi p) ev (pInfo fmod) \<and>
            (pInfo fmod = None \<longrightarrow>
               (\<exists>m. snd (handleWatchedFile drv e fullPath fmod w) = [m] \<and>
                    msg_Path m = reportPath fi p \<and>
                    Msg m = (if ev = fileEventDirRemoved then ''Directory was deleted.''
                             else ''File deleted from watched directory.'') \<and>
                    Action m = PolicyActionViolate))"
proof -
  let ?fi = "finfos w (finfo fmod)"
  let ?ev = "if IsDir (FileMode ?fi) \<and> fullPath = finfo_Path ?fi then fileEventDirRemoved
             else fileEventRemoved"
  have ev: "?ev \<noteq> 0" "?ev \<noteq> fileEventAccessed"
    by (simp_all add: removed_kinds)
  have "\<exists>w1. groups w1 = groups w \<and> finfos w1 = finfos w \<and>
      handleWatchedFile drv e fullPath fmod w = learnFromEvents e w1 pid fmod p ?ev"
  proof (cases "IsDir (FileMode ?fi) \<and> fullPath = finfo_Path ?fi")
    case True
    then have "handleWatchedFile drv e fullPath fmod w = learnFromEvents e w pid fmod p ?ev"
      using assms(1-4)
      by (simp add: handleWatchedFile_def create_delete_classified removed_kinds)
    then show ?thesis by blast
  next
    case False
    then have "handleWatchedFile drv e fullPath fmod w =
        learnFromEvents e (removeFile drv fullPath w) pid fmod p ?ev"
      using assms(1-4)
      by (auto simp: handleWatchedFile_def create_delete_classified removed_kinds)
    moreover have "groups (removeFile drv fullPath w) = groups w"
      "finfos (removeFile drv fullPath w) = finfos w"
      by simp_all
    ultimately show ?thesis by blast
  qed
  then obtain w1 where w1: "groups w1 = groups w" "finfos w1 = finfos w"
    "handleWatchedFile drv e fullPath fmod w = learnFromEvents e w1 pid fmod p ?ev"
    by blast
  from assms(5) w1(1) have g: "groups w1 pid = Some grp" by simp
  have s: "snd (handleWatchedFile drv e fullPath fmod w) =
      sendMsg e (ContainerId ?fi) (reportPath ?fi p) ?ev (pInfo fmod)"
    unfolding w1(3) learnFromEvents_sends [OF g ev(2) assms(6)] w1(2) ..
  have "\<exists>m. snd (handleWatchedFile drv e fullPath fmod w) = [m] \<and>
          msg_Path m = reportPath ?fi p \<and>
          Msg m = (if ?ev = fileEventDirRemoved then ''Directory was deleted.''
                   else ''File deleted from watched directory.'') \<and>
          Action m = PolicyActionViolate"
    if "pInfo fmod = None"
    unfolding s using that
    by (simp add: sendMsg_def removed_kinds baseMsg_def)
  with s show ?thesis unfolding Let_def by blast
qed

theorem C7_create_delete_reported_witness:
  "mask tmpEvent = IN_CREATE OR IN_DELETE \<and>
   mask subDirEvent = IN_CREATE OR IN_DELETE OR IN_ISDIR \<and>
   Lstat emptyFs ''/proc/42/root/bin/tmp1'' = None \<and>
   map Msg (snd (handleWatchedFile callDrivers emptyFs ''/proc/42/root/bin/tmp1'' tmpEvent started)) =
     [''File deleted from watched directory.''] \<and>
   map Msg (snd (handleWatchedFile callDrivers emptyFs ''/proc/42/root/bin/sub1'' subDirEvent started)) =
     [''File deleted from watched directory.''] \<and>
   map Msg (snd (handleWatchedFile callDrivers emptyFs ''/proc/42/root/bin'' subDirEvent started)) =
     [''Directory was deleted.'']"
proof -
  have e: "Lstat emptyFs p = None" "IsPidValid emptyFs 42"
      "ParseContainerFilePath emptyFs = parseProcPath" for p
    by (simp_all add: emptyFs_def)
  have pn: "pInfo tmpEvent = None" "pInfo subDirEvent = None"
    by (simp_all add: tmpEvent_def subDirEvent_def)
  have b: "\<not> (isRunTimeAddedFile (filepath_Join [''/root'', p]) \<and>
            now emptyFs - startAt learnGroup < 60 * 1000000000)"
    if "\<not> isRunTimeAddedFile (filepath_Join [''/root'', p])" for p
    using that by simp
  have p1: "ParseContainerFilePath emptyFs ''/proc/42/root/bin/tmp1'' = (42, ''/bin/tmp1'')"
    and p2: "ParseContainerFilePath emptyFs ''/proc/42/root/bin/sub1'' = (42, ''/bin/sub1'')"
    and p3: "ParseContainerFilePath emptyFs ''/proc/42/root/bin'' = (42, ''/bin'')"
    by (simp_all add: e parse_tmp parse_sub parse_bin)
  note t1 = C7_create_delete_reported [OF pending_not_moved(1) e(1) p1 e(2) started_group
      b [OF tmp_not_runtime], of callDrivers, unfolded Let_def, THEN conjunct2, rule_format, OF pn(1)]
  note t2 = C7_create_delete_reported [OF pending_not_moved(2) e(1) p2 e(2) started_group
      b [OF sub_not_runtime(1)], of callDrivers, unfolded Let_def, THEN conjunct2, rule_format,
      OF pn(2)]
  note t3 = C7_create_delete_reported [OF pending_not_moved(2) e(1) p3 e(2) started_group
      b [OF sub_not_runtime(2)], of callDrivers, unfolded Let_def, THEN conjunct2, rule_format,
      OF pn(2)]
  from t1 obtain m1 where m1:
    "snd (handleWatchedFile callDrivers emptyFs ''/proc/42/root/bin/tmp1'' tmpEvent started) = [m1]"
    "Msg m1 = ''File deleted from watched directory.''"
    by (auto simp: started_binDir removed_kinds)
  from t2 obtain m2 where m2:
    "snd (handleWatchedFile callDrivers emptyFs ''/proc/42/root/bin/sub1'' subDirEvent started) = [m2]"
    "Msg m2 = ''File deleted from watched directory.''"
    by (auto simp: started_binDir removed_kinds)
  from t3 obtain m3 where m3:
    "snd (handleWatchedFile callDrivers emptyFs ''/proc/42/root/bin'' subDirEvent started) = [m3]"
    "Msg m3 = ''Directory was deleted.''"
    by (auto simp: started_binDir removed_kinds)
  have "mask tmpEvent = IN_CREATE OR IN_DELETE"
    "mask subDirEvent = IN_CREATE OR IN_DELETE OR IN_ISDIR"
    by (simp_all add: tmpEvent_def subDirEvent_def)
  with m1 m2 m3 e(1) show ?thesis by simp
qed

subsection \<open>Dropped watches\<close>

lemma ignored_eq:
  "ignored = started\<lparr>fanotifier := fanotifier started @ [FaRemoveMonitorFile ''/proc/42/root/bin/ls''],
                     inotifier := [InoRemoveMonitorFile ''/proc/42/root/bin/ls'']\<rparr>"
  by (simp add: ignored_def cbNotify_def removeFile_def callDrivers_def const_defs started_eq
      freshWatch_def)

text \<open>
  C8, as the claim states it, fails in its second half: on \<open>IN_IGNORED\<close> or \<open>IN_UNMOUNT\<close>
  \<open>cbNotify\<close> returns right after \<open>removeFile\<close> (the comment says that these events are
  ignored because they are too many), so nothing is recorded for the path and the next
  flush sends nothing.
\<close>

theorem C8_counterexample:
  "(IN_IGNORED AND IN_IGNORED) \<noteq> 0 \<and>
   fileEvents ignored ''/proc/42/root/bin/ls'' = None \<and>
   snd (HandleWatchedFiles callDrivers (\<lambda>k. emptyFs) [''/proc/42/root/bin/ls''] ignored) = []"
  by (simp add: ignored_eq started_eq freshWatch_def HandleWatchedFiles_def IN_IGNORED_def)

text \<open>
  C8 (amended): when \<open>cbNotify\<close> receives an event whose mask contains \<open>IN_IGNORED\<close> or
  \<open>IN_UNMOUNT\<close>, it calls \<open>RemoveMonitorFile\<close> for the path on both drivers and drops the
  event: the pending events and the groups are left unchanged.
\<close>

theorem C8_ignored_released_not_recorded:
  assumes "(msk AND IN_IGNORED) \<noteq> 0 \<or> (msk AND IN_UNMOUNT) \<noteq> 0"
  shows "fanotifier (cbNotify drv w filePath msk params pf) =
           fa_RemoveMonitorFile drv filePath (fanotifier w) \<and>
         inotifier (cbNotify drv w filePath msk params pf) =
           ino_RemoveMonitorFile drv filePath (inotifier w) \<and>
         fileEvents (cbNotify drv w filePath msk params pf) = fileEvents w \<and>
         groups (cbNotify drv w filePath msk params pf) = groups w"
  using assms by (auto simp: cbNotify_def removeFile_def)

theorem C8_ignored_released_not_recorded_witness:
  "(IN_IGNORED AND IN_IGNORED) \<noteq> 0 \<and>
   fanotifier ignored = [FaSetMode 42 True False True False, FaStartMonitor 42,
                         FaRemoveMonitorFile ''/proc/42/root/bin/ls''] \<and>
   inotifier ignored = [InoRemoveMonitorFile ''/proc/42/root/bin/ls''] \<and>
   fileEvents ignored = fileEvents started"
proof -
  have m: "(IN_IGNORED AND IN_IGNORED) \<noteq> 0" by (simp add: IN_IGNORED_def)
  then have "(IN_IGNORED AND IN_IGNORED) \<noteq> 0 \<or> (IN_IGNORED AND IN_UNMOUNT) \<noteq> 0" ..
  note t = C8_ignored_released_not_recorded [OF this, of callDrivers started
      "''/proc/42/root/bin/ls''" 0 None, folded ignored_def]
  have fa: "fa_RemoveMonitorFile callDrivers ''/proc/42/root/bin/ls'' (fanotifier started) =
      [FaSetMode 42 True False True False, FaStartMonitor 42,
       FaRemoveMonitorFile ''/proc/42/root/bin/ls'']"
    by (simp add: callDrivers_def started_eq freshWatch_def)
  have ino: "ino_RemoveMonitorFile callDrivers ''/proc/42/root/bin/ls'' (inotifier started) =
      [InoRemoveMonitorFile ''/proc/42/root/bin/ls'']"
    by (simp add: callDrivers_def started_eq freshWatch_def)
  from t have "fanotifier ignored = fa_RemoveMonitorFile callDrivers ''/proc/42/root/bin/ls'' (fanotifier started)"
    and "inotifier ignored = ino_RemoveMonitorFile callDrivers ''/proc/42/root/bin/ls'' (inotifier started)"
    and "fileEvents ignored = fileEvents started"
    by blast+
  with m show ?thesis unfolding fa ino by blast
qed

subsection \<open>Reports on symbolic links\<close>

lemma sendMsgProcs_paths:
  "m \<in> set (sendMsgProcs b prev ps) \<Longrightarrow> msg_Path m = msg_Path b"
  by (induction ps arbitrary: prev)
     (auto simp: procMsg_def Let_def split: option.splits if_splits)

lemma baseMsg_path [simp]: "msg_Path (baseMsg e cid p event t) = p"
  by (simp add: baseMsg_def)

lemma sendMsg_paths: "m \<in> set (sendMsg e cid p event ps) \<Longrightarrow> msg_Path m = p"
  by (auto simp: sendMsg_def split: option.splits) (drule sendMsgProcs_paths, simp)

lemma HasPrefix_append: "strings_HasPrefix s p \<Longrightarrow> \<exists>rest. s = p @ rest"
  unfolding strings_HasPrefix_def by (metis append_take_drop_id)

lemma learnFromEvents_paths:
  "m \<in> set (snd (learnFromEvents e w pid fmod p event)) \<Longrightarrow>
   msg_Path m = reportPath (finfos w (finfo fmod)) p"
  by (auto simp: learnFromEvents_def Let_def split: option.splits if_splits dest: sendMsg_paths)

lemma strings_Index_found:
  "strings_Index s sub = i \<Longrightarrow> 0 \<le> i \<Longrightarrow>
   strings_HasPrefix (drop (nat i) s) sub \<and> nat i \<le> length s \<and>
   (\<forall>j < nat i. \<not> strings_HasPrefix (drop j s) sub)"
proof (induction s arbitrary: i)
  case Nil
  then show ?case by (auto simp: strings_HasPrefix_def split: if_splits)
next
  case (Cons c cs)
  show ?case
  proof (cases "strings_HasPrefix (c # cs) sub")
    case True
    with Cons.prems show ?thesis by simp
  next
    case False
    with Cons.prems have r: "strings_Index cs sub = i - 1" "0 \<le> i - 1"
      by (auto simp: Let_def split: if_splits)
    from Cons.IH [OF r] have ih: "strings_HasPrefix (drop (nat (i - 1)) cs) sub"
      "nat (i - 1) \<le> length cs" "\<forall>j < nat (i - 1). \<not> strings_HasPrefix (drop j cs) sub"
      by auto
    from r have n: "nat i = Suc (nat (i - 1))" by simp
    have "\<forall>j < nat i. \<not> strings_HasPrefix (drop j (c # cs)) sub"
    proof (intro allI impI)
      fix j assume "j < nat i"
      then show "\<not> strings_HasPrefix (drop j (c # cs)) sub"
        using False ih(3) n by (cases j) auto
    qed
    with ih n show ?thesis by simp
  qed
qed

lemma strings_Index_least:
  "strings_HasPrefix (drop j s) sub \<Longrightarrow> j \<le> length s \<Longrightarrow>
   0 \<le> strings_Index s sub \<and> strings_Index s sub \<le> int j"
proof (induction s arbitrary: j)
  case Nil
  then show ?case by (auto simp: strings_HasPrefix_def)
next
  case (Cons c cs)
  show ?case
  proof (cases "strings_HasPrefix (c # cs) sub")
    case True
    then show ?thesis by simp
  next
    case False
    with Cons.prems obtain k where k: "j = Suc k" by (cases j) auto
    with Cons.prems have "strings_HasPrefix (drop k cs) sub" "k \<le> length cs" by simp_all
    from Cons.IH [OF this] False k show ?thesis by (simp add: Let_def)
  qed
qed

text \<open>
  C9, as the claim states it, fails: \<open>strings.Index\<close> returns the first occurrence, and
  the prefix is cut only when that index is positive. In the link target \<open>/root/root/x\<close>
  the substring \<open>/root/\<close> occurs at the positive index 5, and the suffix from the slash
  after that \<open>/root\<close> is \<open>/x\<close>; but the first occurrence is at index 0, so the message
  reports the target whole.
\<close>

lemma rootLinked_msgs:
  "snd (learnFromEvents emptyFs rootLinkedWatch 42 hostsWrite ''/bin/ls'' fileEventModified) =
     [baseMsg emptyFs ''c1'' (reportPath (binDir\<lparr>Link := ''/root/root/x''\<rparr>) ''/bin/ls'')
        fileEventModified ''File was modified.'']"
  by (simp add: learnFromEvents_def rootLinkedWatch_def started_eq freshWatch_def learnGroup_def
      hostsWrite_def sliceElems_def Let_def sendMsg_def fileEventMsg_def const_defs binDir_def
      isRunTimeAddedFile_def filepath_Clean_def strings_HasSuffix_def)

theorem C9_counterexample:
  "Link (finfos rootLinkedWatch (finfo hostsWrite)) = ''/root/root/x'' \<and>
   strings_HasPrefix (drop 5 ''/root/root/x'') ''/root/'' \<and>
   drop (5 + 5) ''/root/root/x'' = ''/x'' \<and>
   map msg_Path (snd (learnFromEvents emptyFs rootLinkedWatch 42 hostsWrite ''/bin/ls''
     fileEventModified)) = [''/root/root/x'']"
proof -
  have i: "strings_Index ''/root/root/x'' ''/root/'' = 0"
    by code_simp
  have l: "Link (binDir\<lparr>Link := ''/root/root/x''\<rparr>) = ''/root/root/x''"
    by simp
  have r: "reportPath (binDir\<lparr>Link := ''/root/root/x''\<rparr>) ''/bin/ls'' = ''/root/root/x''"
    unfolding reportPath_def Let_def l i by simp
  show ?thesis
    unfolding rootLinked_msgs r
    by (simp add: rootLinkedWatch_def strings_HasPrefix_def)
qed

text \<open>
  C9 (amended): when the \<open>FileInfoExt\<close> of an event has a non-empty \<open>Link\<close>, every message
  sent for the event carries the link target instead of the event's path; and if the
  first occurrence of \<open>/root/\<close> in the target is at a positive index, the path reported
  is the rest of the target from the slash that follows that first \<open>/root\<close>. In a target
  that does not begin with \<open>/root/\<close>, an occurrence at any positive index makes the first
  one positive; a target that begins with \<open>/root/\<close> is reported whole.
\<close>

theorem C9_link_target_reported:
  assumes "Link (finfos w (finfo fmod)) = l" and "l \<noteq> []"
    and "m \<in> set (snd (learnFromEvents e w pid fmod p event))"
  shows "msg_Path m =
           (if 0 < strings_Index l ''/root/'' then drop (nat (strings_Index l ''/root/'' + 5)) l
            else l) \<and>
         (0 < strings_Index l ''/root/'' \<longrightarrow>
            (\<exists>pre. l = pre @ ''/root'' @ msg_Path m \<and> pre \<noteq> [] \<and>
                   int (length pre) = strings_Index l ''/root/'' \<and>
                   strings_HasPrefix (msg_Path m) ''/'' \<and>
                   (\<forall>j < length pre. \<not> strings_HasPrefix (drop j l) ''/root/''))) \<and>
         ((\<exists>j. 0 < j \<and> j \<le> length l \<and> strings_HasPrefix (drop j l) ''/root/'') \<and>
          \<not> strings_HasPrefix l ''/root/'' \<longrightarrow> 0 < strings_Index l ''/root/'') \<and>
         (strings_HasPrefix l ''/root/'' \<longrightarrow> msg_Path m = l)"
proof -
  have path: "msg_Path m =
      (if 0 < strings_Index l ''/root/'' then drop (nat (strings_Index l ''/root/'' + 5)) l else l)"
    using learnFromEvents_paths [OF assms(3)] assms(1,2)
    by (simp add: reportPath_def Let_def)
  have "\<exists>pre. l = pre @ ''/root'' @ msg_Path m \<and> pre \<noteq> [] \<and>
          int (length pre) = strings_Index l ''/root/'' \<and>
          strings_HasPrefix (msg_Path m) ''/'' \<and>
          (\<forall>j < length pre. \<not> strings_HasPrefix (drop j l) ''/root/'')"
    if pos: "0 < strings_Index l ''/root/''"
  proof -
    define i where "i = nat (strings_Index l ''/root/'')"
    from pos have ii: "strings_Index l ''/root/'' = int i" "0 < i" by (simp_all add: i_def)
    from strings_Index_found [OF refl, of l "''/root/''"] pos
    have f: "strings_HasPrefix (drop i l) ''/root/''" "i \<le> length l"
      "\<forall>j < i. \<not> strings_HasPrefix (drop j l) ''/root/''"
      by (simp_all add: i_def)
    from HasPrefix_append [OF f(1)] obtain rest where rest: "drop i l = ''/root/'' @ rest" ..
    have mp: "msg_Path m = drop 5 (drop i l)"
      using path pos by (simp add: i_def nat_add_distrib add.commute)
    then have mp': "msg_Path m = ''/'' @ rest" by (simp add: rest)
    have "l = take i l @ drop i l" by simp
    then have "l = take i l @ ''/root'' @ msg_Path m" by (simp add: rest mp')
    moreover have "take i l \<noteq> []" using ii(2) f(2) rest by auto
    moreover have "int (length (take i l)) = strings_Index l ''/root/''"
      using f(2) ii by simp
    moreover have "strings_HasPrefix (msg_Path m) ''/''"
      by (simp add: mp' strings_HasPrefix_def)
    moreover have "\<forall>j < length (take i l). \<not> strings_HasPrefix (drop j l) ''/root/''"
      using f(3) by simp
    ultimately show ?thesis by blast
  qed
  moreover have "0 < strings_Index l ''/root/''"
    if occ: "\<exists>j. 0 < j \<and> j \<le> length l \<and> strings_HasPrefix (drop j l) ''/root/''"
      and nohead: "\<not> strings_HasPrefix l ''/root/''"
  proof -
    from occ obtain j where "j \<le> length l" "strings_HasPrefix (drop j l) ''/root/''" by blast
    from strings_Index_least [OF this(2,1)] have nn: "0 \<le> strings_Index l ''/root/''" by simp
    have "strings_Index l ''/root/'' \<noteq> 0"
    proof
      assume z: "strings_Index l ''/root/'' = 0"
      from strings_Index_found [OF z] have "strings_HasPrefix l ''/root/''" by simp
      with nohead show False ..
    qed
    with nn show ?thesis by simp
  qed
  moreover have "msg_Path m = l" if "strings_HasPrefix l ''/root/''"
  proof -
    from that have "strings_Index l ''/root/'' = 0"
      by (cases l) (simp_all add: strings_HasPrefix_def)
    with path show ?thesis by simp
  qed
  ultimately show ?thesis using path by blast
qed

lemma linked_msgs:
  "snd (learnFromEvents emptyFs linkedWatch 42 hostsWrite ''/bin/ls'' fileEventModified) \<noteq> []"
  by (simp add: learnFromEvents_def linkedWatch_def started_eq freshWatch_def learnGroup_def
      hostsWrite_def emptyFs_def sliceElems_def Let_def sendMsg_def fileEventMsg_def const_defs
      isRunTimeAddedFile_def filepath_Clean_def strings_HasSuffix_def)

theorem C9_link_target_reported_witness:
  "Link (finfos linkedWatch (finfo hostsWrite)) = ''/proc/42/root/usr/bin/ls'' \<and>
   snd (learnFromEvents emptyFs linkedWatch 42 hostsWrite ''/bin/ls'' fileEventModified) \<noteq> [] \<and>
   msg_Path (hd (snd (learnFromEvents emptyFs linkedWatch 42 hostsWrite ''/bin/ls'' fileEventModified)))
     = ''/usr/bin/ls''"
proof -
  have l: "Link (finfos linkedWatch (finfo hostsWrite)) = ''/proc/42/root/usr/bin/ls''"
    by (simp add: linkedWatch_def binDir_def)
  have i: "strings_Index ''/proc/42/root/usr/bin/ls'' ''/root/'' = 8"
    by code_simp
  have ne: "''/proc/42/root/usr/bin/ls'' \<noteq> []" by simp
  from linked_msgs
  have "hd (snd (learnFromEvents emptyFs linkedWatch 42 hostsWrite ''/bin/ls'' fileEventModified))
      \<in> set (snd (learnFromEvents emptyFs linkedWatch 42 hostsWrite ''/bin/ls'' fileEventModified))"
    by (rule hd_in_set)
  note t = C9_link_target_reported [OF l ne this, THEN conjunct1]
  have "msg_Path (hd (snd (learnFromEvents emptyFs linkedWatch 42 hostsWrite ''/bin/ls''
      fileEventModified))) = ''/usr/bin/ls''"
    unfolding t i by simp
  with l linked_msgs show ?thesis by blast
qed

subsection \<open>A disabled watcher\<close>

text \<open>
  On a watcher constructed with \<open>ProfileEnable = false\<close>, \<open>StartWatch\<close>,
  \<open>UpdateAccessRules\<close> and \<open>ContainerCleanup\<close> return the watcher as it is (groups,
  pending events, both drivers), and \<open>GetWatchFileList\<close>, \<open>GetAllFileMonitorFile\<close> and
  \<open>GetProbeData\<close> return \<open>nil\<close>: each of them tests \<open>bEnable\<close> first.
\<close>

lemma disabled_noop:
  assumes "\<not> bEnable w"
  shows "StartWatch drv e w cid rootPid conf capBlock bNeuvectorSvc = w \<and>
         UpdateAccessRules drv w name rootPid rl = w \<and>
         ContainerCleanup drv e w rootPid bLeave = w \<and>
         GetWatchFileList drv w rootPid = None \<and>
         GetAllFileMonitorFile drv w = None \<and>
         GetProbeData drv w = None"
  using assms
  by (simp add: StartWatch_def UpdateAccessRules_def ContainerCleanup_def GetWatchFileList_def
      GetAllFileMonitorFile_def GetProbeData_def)

lemma disabled_noop_example:
  "\<not> bEnable disabledWatch \<and>
   StartWatch callDrivers emptyFs disabledWatch ''c1'' 42 \<lparr>Profile = binProfile, Rule = None\<rparr> True False
     = disabledWatch \<and>
   UpdateAccessRules callDrivers disabledWatch ''nv.c1'' 42 (binRule []) = disabledWatch \<and>
   ContainerCleanup callDrivers emptyFs disabledWatch 42 True = disabledWatch \<and>
   GetWatchFileList callDrivers disabledWatch 42 = None \<and>
   GetAllFileMonitorFile callDrivers disabledWatch = None \<and>
   GetProbeData callDrivers disabledWatch = None \<and>
   GetWatchFileList callDrivers freshWatch 42 = Some []"
proof -
  have d: "\<not> bEnable disabledWatch" by (simp add: disabledWatch_def freshWatch_def)
  from disabled_noop [OF d, of callDrivers emptyFs "''c1''" 42
      "\<lparr>Profile = binProfile, Rule = None\<rparr>" True False "''nv.c1''" "binRule []" True] d
  show ?thesis
    by (simp add: GetWatchFileList_def freshWatch_def callDrivers_def)
qed

text \<open>
  \<open>SetNVProtectFlag\<close> has no such test. On an enabled watcher it sets both flags; the
  watcher built by \<open>NewFileWatcher\<close> from a configuration with \<open>ProfileEnable = false\<close> is
  the disabled watcher of the examples.
\<close>

lemma SetNVProtectFlag_enabled:
  assumes "bEnable w"
  shows "SetNVProtectFlag setFa w b =
           Inr (w\<lparr>bNVProtect := b, fanotifier := setFa b (fanotifier w)\<rparr>)"
  using assms by (simp add: SetNVProtectFlag_def fanotifier_ptr_def)

lemma disabled_constructed:
  "NewFileWatcher \<lparr>ProfileEnable = False, IsAufs = False, EnableTrace = False, NVProtect = False\<rparr>
     [] [] (Some []) (Some []) (\<lambda>a. binDir) = Some disabledWatch"
  by (simp add: NewFileWatcher_def disabledWatch_def freshWatch_def)

text \<open>
  C10: the claim is that every public operation is a no-op on the state of a watcher
  constructed with \<open>ProfileEnable = false\<close>. The code departs from it in
  \<open>SetNVProtectFlag\<close>: on a disabled watcher the call writes \<open>bNVProtect\<close> and then panics
  on the \<open>nil\<close> fanotifier, so a call with a value other than the current flag leaves a
  changed watcher behind.
\<close>

theorem C10_SetNVProtectFlag_disabled:
  assumes "\<not> bEnable w"
  shows "SetNVProtectFlag setFa w b = Inl (NilPointerDereference, w\<lparr>bNVProtect := b\<rparr>) \<and>
         (b \<noteq> bNVProtect w \<longrightarrow> w\<lparr>bNVProtect := b\<rparr> \<noteq> w)"
proof -
  have "SetNVProtectFlag setFa w b = Inl (NilPointerDereference, w\<lparr>bNVProtect := b\<rparr>)"
    using assms by (simp add: SetNVProtectFlag_def fanotifier_ptr_def)
  moreover have "w\<lparr>bNVProtect := b\<rparr> \<noteq> w" if "b \<noteq> bNVProtect w"
  proof
    assume "w\<lparr>bNVProtect := b\<rparr> = w"
    then have "bNVProtect (w\<lparr>bNVProtect := b\<rparr>) = bNVProtect w" by simp
    with that show False by simp
  qed
  ultimately show ?thesis by blast
qed

theorem C10_SetNVProtectFlag_disabled_witness:
  "NewFileWatcher \<lparr>ProfileEnable = False, IsAufs = False, EnableTrace = False, NVProtect = False\<rparr>
     [] [] (Some []) (Some []) (\<lambda>a. binDir) = Some disabledWatch \<and>
   \<not> bEnable disabledWatch \<and> \<not> bNVProtect disabledWatch \<and>
   SetNVProtectFlag (\<lambda>b fa. fa) disabledWatch True =
     Inl (NilPointerDereference, disabledWatch\<lparr>bNVProtect := True\<rparr>) \<and>
   disabledWatch\<lparr>bNVProtect := True\<rparr> \<noteq> disabledWatch"
proof -
  have d: "\<not> bEnable disabledWatch" "\<not> bNVProtect disabledWatch"
    by (simp_all add: disabledWatch_def freshWatch_def)
  note t = C10_SetNVProtectFlag_disabled [OF d(1), of "\<lambda>b fa. fa" True]
  from d(2) have "True \<noteq> bNVProtect disabledWatch" by simp
  with t have "disabledWatch\<lparr>bNVProtect := True\<rparr> \<noteq> disabledWatch" by blast
  with t [THEN conjunct1] d disabled_constructed show ?thesis by blast
qed

end
